theory Spec2Isabelle
  imports Main "HOL-Library.Sublist" "HOL-Library.AList"
begin

section \<open>Data model\<close>

subsection \<open>Messages\<close>

text \<open>
  Modelled from the spec: the module \<^verbatim>\<open>./types/types\<close> (\<^verbatim>\<open>Message\<close>,
  \<^verbatim>\<open>AssistantMessage\<close>, \<^verbatim>\<open>AssistantMessageWithToolCalls\<close>, \<^verbatim>\<open>ToolMessage\<close>) is
  imported by \<^verbatim>\<open>agents.ts\<close> but is not part of the sources at hand. The variants
  below follow section 3 of the specification and the fields that \<^verbatim>\<open>agents.ts\<close>
  reads and writes: an assistant message with text carries \<^verbatim>\<open>content\<close>,
  \<^verbatim>\<open>agentName\<close> and \<^verbatim>\<open>responseType\<close>; an assistant message with tool calls has
  \<^verbatim>\<open>content: null\<close>. The agent name is nullable (\<^verbatim>\<open>createAgentCallStack\<close> tests it
  for truthiness).
\<close>

datatype responseType = Internal | External

record toolCall =
  tc_id :: string
  tc_name :: string
  tc_arguments :: string

datatype message =
    SystemMessage string
  | UserMessage string
  | AssistantMessage string "string option" responseType
  | AssistantMessageWithToolCalls "toolCall list" "string option"
  | ToolMessage string string string

datatype role = system | user | assistant | tool

fun role_of :: "message \<Rightarrow> role" where
  "role_of (SystemMessage c) = system"
| "role_of (UserMessage c) = user"
| "role_of (AssistantMessage c a r) = assistant"
| "role_of (AssistantMessageWithToolCalls tcs a) = assistant"
| "role_of (ToolMessage c i n) = tool"

text \<open>\<^verbatim>\<open>msg.content\<close>: \<open>None\<close> is JavaScript's \<^verbatim>\<open>null\<close>.\<close>

fun content_of :: "message \<Rightarrow> string option" where
  "content_of (SystemMessage c) = Some c"
| "content_of (UserMessage c) = Some c"
| "content_of (AssistantMessage c a r) = Some c"
| "content_of (AssistantMessageWithToolCalls tcs a) = None"
| "content_of (ToolMessage c i n) = Some c"

text \<open>\<^verbatim>\<open>msg.agentName\<close> of an assistant message.\<close>

fun agentName_of :: "message \<Rightarrow> string option" where
  "agentName_of (AssistantMessage c a r) = a"
| "agentName_of (AssistantMessageWithToolCalls tcs a) = a"
| "agentName_of m = None"

text \<open>JavaScript truthiness of a nullable string: neither \<^verbatim>\<open>null\<close> nor empty.\<close>

fun truthy :: "string option \<Rightarrow> bool" where
  "truthy None = False"
| "truthy (Some s) = (s \<noteq> [])"

subsection \<open>\<^verbatim>\<open>ensureSystemMessage\<close>\<close>

definition default_system_prompt :: string where
  "default_system_prompt = ''You are a helpful assistant.''"

text \<open>
  The source mutates the array in place; the model returns the new transcript.
  First \<^verbatim>\<open>if\<close>: a non-empty transcript whose first message is not a system message
  gets the default prepended (\<^verbatim>\<open>unshift\<close>). Second \<^verbatim>\<open>if\<close>: a leading system message
  with falsy content gets the default content.
\<close>

definition ensureSystemMessage :: "message list \<Rightarrow> message list" where
  "ensureSystemMessage messages =
     (let messages1 =
            (if length messages > 0 \<and> role_of (hd messages) \<noteq> system
             then SystemMessage default_system_prompt # messages
             else messages)
      in if length messages1 > 0 \<and> role_of (hd messages1) = system
            \<and> \<not> truthy (content_of (hd messages1))
         then SystemMessage default_system_prompt # tl messages1
         else messages1)"

subsection \<open>\<^verbatim>\<open>convertMsgsInput\<close>\<close>

text \<open>
  The items handed to the provider (\<^verbatim>\<open>AgentInputItem\<close> of the agents SDK), with the
  fields the source sets: an assistant item holds one \<^verbatim>\<open>output_text\<close> part.
\<close>

datatype agentInputItem =
    input_assistant string
  | input_user string
  | input_system string

text \<open>Interpolation of a nullable string in a template literal.\<close>

fun template_string :: "string option \<Rightarrow> string" where
  "template_string None = ''null''"
| "template_string (Some s) = s"

definition sender_block :: "string option \<Rightarrow> string \<Rightarrow> string" where
  "sender_block agent c =
     ''Sender agent: '' @ template_string agent @ [CHR 0x0A] @ ''Content: '' @ c"

text \<open>One pass of the \<^verbatim>\<open>for\<close> loop: the items pushed so far, and the message.\<close>

fun convertMsgsInput_step :: "agentInputItem list \<Rightarrow> message \<Rightarrow> agentInputItem list" where
  "convertMsgsInput_step msgs msg =
     (if role_of msg = assistant \<and> truthy (content_of msg)
      then msgs @ [input_assistant (sender_block (agentName_of msg) (the (content_of msg)))]
      else if role_of msg = user
      then msgs @ [input_user (the (content_of msg))]
      else if role_of msg = system
      then msgs @ [input_system (the (content_of msg))]
      else msgs)"

definition convertMsgsInput :: "message list \<Rightarrow> agentInputItem list" where
  "convertMsgsInput messages = foldl convertMsgsInput_step [] messages"

subsection \<open>Workflow configuration\<close>

text \<open>
  Modelled from the spec: \<^verbatim>\<open>./types/workflow_types\<close> (\<^verbatim>\<open>Workflow\<close>, \<^verbatim>\<open>WorkflowAgent\<close>,
  \<^verbatim>\<open>WorkflowPrompt\<close>, \<^verbatim>\<open>WorkflowTool\<close>, \<^verbatim>\<open>sanitizeTextWithMentions\<close>) is not part of
  the sources at hand. The records keep the fields that the orchestrator reads
  (section 3 of the specification). \<open>wa_connectedAgents\<close> stands for the names of the
  agent-kind entities that \<^verbatim>\<open>sanitizeTextWithMentions\<close> resolves in the agent's
  instructions. The JSON schema of a tool's parameters plays no part below and is left out.
\<close>

datatype outputVisibility = user_facing | internal

record workflowAgent =
  wa_name :: string
  wa_outputVisibility :: outputVisibility
  wa_connectedAgents :: "string list"

record workflowPrompt =
  wp_name :: string
  wp_type :: string
  wp_prompt :: string

record composioData =
  cd_slug :: string
  cd_toolkitSlug :: string
  cd_noAuth :: bool

record workflowTool =
  wt_name :: string
  wt_description :: string
  wt_isMcp :: bool
  wt_isComposio :: bool
  wt_mockTool :: bool
  wt_mockInstructions :: "string option"
  wt_mcpServerName :: "string option"
  wt_mcpServerURL :: "string option"
  wt_composioData :: "composioData option"

record workflow =
  wf_projectId :: string
  wf_startAgent :: string
  wf_agents :: "workflowAgent list"
  wf_prompts :: "workflowPrompt list"
  wf_tools :: "workflowTool list"

text \<open>
  A JavaScript object used as a dictionary is an association list in insertion
  order: \<^verbatim>\<open>{...acc, [k]: v}\<close> overwrites the value of a key that is present and
  appends a new key (\<^const>\<open>AList.update\<close>).
\<close>

record compiled =
  agentConfig :: "(string \<times> workflowAgent) list"
  toolConfig :: "(string \<times> workflowTool) list"
  promptConfig :: "(string \<times> workflowPrompt) list"

definition mapConfig :: "workflow \<Rightarrow> workflowTool list \<Rightarrow> compiled" where
  "mapConfig workflow projectTools =
     \<lparr> agentConfig = foldl (\<lambda>acc agent. AList.update (wa_name agent) agent acc) [] (wf_agents workflow),
       toolConfig = foldl (\<lambda>acc t. AList.update (wt_name t) t acc) [] (wf_tools workflow @ projectTools),
       promptConfig = foldl (\<lambda>acc p. AList.update (wp_name p) p acc) [] (wf_prompts workflow) \<rparr>"

subsection \<open>Errors\<close>

text \<open>
  The exceptions that leave \<^verbatim>\<open>streamResponse\<close>: the two \<^verbatim>\<open>throw\<close> statements on
  its path and whatever the provider's \<^verbatim>\<open>run\<close> or its event stream raises.
\<close>

datatype error =
    ComposioDataNotFound string
  | AgentNotFound
  | ProviderError string

subsection \<open>Usage and transfer accounting\<close>

record usage =
  u_total :: int
  u_prompt :: int
  u_completion :: int

definition UsageTracker_new :: usage where
  "UsageTracker_new = \<lparr> u_total = 0, u_prompt = 0, u_completion = 0 \<rparr>"

definition UsageTracker_increment :: "usage \<Rightarrow> int \<Rightarrow> int \<Rightarrow> int \<Rightarrow> usage" where
  "UsageTracker_increment u t p c =
     \<lparr> u_total = u_total u + t, u_prompt = u_prompt u + p, u_completion = u_completion u + c \<rparr>"

text \<open>\<^verbatim>\<open>AgentTransferCounter\<close>: the dictionary \<^verbatim>\<open>calls\<close>, keyed by \<^verbatim>\<open>from:to\<close>.\<close>

definition transfer_key :: "string \<Rightarrow> string \<Rightarrow> string" where
  "transfer_key fromAgent toAgent = fromAgent @ '':'' @ toAgent"

definition AgentTransferCounter_get :: "(string \<rightharpoonup> nat) \<Rightarrow> string \<Rightarrow> string \<Rightarrow> nat" where
  "AgentTransferCounter_get calls fromAgent toAgent =
     (case calls (transfer_key fromAgent toAgent) of None \<Rightarrow> 0 | Some n \<Rightarrow> n)"

definition AgentTransferCounter_increment ::
  "(string \<rightharpoonup> nat) \<Rightarrow> string \<Rightarrow> string \<Rightarrow> (string \<rightharpoonup> nat)" where
  "AgentTransferCounter_increment calls fromAgent toAgent =
     calls(transfer_key fromAgent toAgent \<mapsto> AgentTransferCounter_get calls fromAgent toAgent + 1)"

subsection \<open>Provider events\<close>

text \<open>
  The events of the agents SDK's stream (an external library), with the fields that
  \<^verbatim>\<open>streamResponse\<close> inspects. The discriminating \<^verbatim>\<open>type\<close> of an event, of a
  response output and of a run item is the constructor; the \<^verbatim>\<open>type\<close> and
  \<^verbatim>\<open>status\<close> of a raw item and the event \<^verbatim>\<open>name\<close> stay strings, compared as the
  source compares them.
\<close>

datatype responseOutput =
    function_call string string string
  | other_output

record responseUsage =
  totalTokens :: int
  inputTokens :: int
  outputTokens :: int

datatype modelData =
    response_done "responseOutput list" responseUsage
  | other_data

datatype messageContent =
    output_text string
  | other_content

record functionCallResult =
  fcr_type :: string
  fcr_status :: string
  fcr_output_type :: string
  fcr_output_text :: string
  fcr_callId :: string
  fcr_name :: string

datatype runItem =
    handoff_output_item string
  | tool_call_output_item functionCallResult
  | message_output_item string string "messageContent list"
  | other_item

datatype streamEvent =
    raw_model_stream_event modelData
  | run_item_stream_event string runItem
  | other_stream_event

subsection \<open>Emitted events\<close>

datatype outEvent =
    MessageEvent message
  | UsageEvent usage

subsection \<open>The environment of one invocation\<close>

text \<open>
  What \<^verbatim>\<open>streamResponse\<close> takes from outside and cannot compute:
  \<^item> \<open>provider\<close>: \<^verbatim>\<open>run(agent, inputs, {stream: true})\<close>; for the number of the loop
    iteration, the active agent and the converted transcript it gives the events
    of the stream and, when the stream (or \<^verbatim>\<open>run\<close> itself) raises after them, the error;
  \<^item> \<open>randomUUID\<close>: \<^verbatim>\<open>crypto.randomUUID()\<close>, by the number of earlier calls;
  \<^item> \<open>JSON_stringify\<close>: \<^verbatim>\<open>JSON.stringify\<close>.
\<close>

datatype json =
    JNull
  | JBool bool
  | JNumber int
  | JString string
  | JArray "json list"
  | JObject "(string \<times> json) list"

record runtime =
  provider :: "nat \<Rightarrow> string \<Rightarrow> agentInputItem list \<Rightarrow> streamEvent list \<times> string option"
  randomUUID :: "nat \<Rightarrow> string"
  JSON_stringify :: "json \<Rightarrow> string"

section \<open>The orchestrator\<close>

subsection \<open>Setup: tools, agents, call stack\<close>

text \<open>
  \<^verbatim>\<open>createTools\<close>: one pass over the entries of \<^verbatim>\<open>toolConfig\<close>. Only what the loop
  can observe is kept: the names of the tools created, and the exception of
  \<^verbatim>\<open>createComposioTool\<close> when \<^verbatim>\<open>composioData\<close> is missing. A tool with no marker is
  skipped.
\<close>

fun createTools :: "(string \<times> workflowTool) list \<Rightarrow> error + string list" where
  "createTools [] = Inr []"
| "createTools ((toolName, config) # entries) =
     (if wt_isMcp config then map_sum id (\<lambda>ts. toolName # ts) (createTools entries)
      else if wt_isComposio config then
        (if wt_composioData config = None then Inl (ComposioDataNotFound (wt_name config))
         else map_sum id (\<lambda>ts. toolName # ts) (createTools entries))
      else if wt_mockTool config then map_sum id (\<lambda>ts. toolName # ts) (createTools entries)
      else createTools entries)"

text \<open>
  \<^verbatim>\<open>createAgents\<close>: one runtime agent per entry of \<^verbatim>\<open>agentConfig\<close>; the second pass
  sets its hand-offs to the mentioned agents that exist. A runtime agent is
  represented by its hand-off names, the rest of it being opaque to the loop.
\<close>

definition createAgents :: "(string \<times> workflowAgent) list \<Rightarrow> (string \<times> string list) list" where
  "createAgents agentCfg =
     map (\<lambda>(agentName, config).
            (agentName, filter (\<lambda>e. map_of agentCfg e \<noteq> None) (wa_connectedAgents config)))
         agentCfg"

text \<open>\<^verbatim>\<open>createAgentCallStack\<close>; the top of the stack is the last element, as in the array.\<close>

fun createAgentCallStack_step :: "string list \<Rightarrow> message \<Rightarrow> string list" where
  "createAgentCallStack_step stack msg =
     (if role_of msg = assistant \<and> truthy (agentName_of msg)
      then (if length stack > 0 \<and> Some (last stack) = agentName_of msg
            then stack
            else stack @ [the (agentName_of msg)])
      else stack)"

definition createAgentCallStack :: "message list \<Rightarrow> string list" where
  "createAgentCallStack messages = foldl createAgentCallStack_step [] messages"

text \<open>
  \<^verbatim>\<open>getNextAgentName\<close>: \<^verbatim>\<open>stack.pop() || workflow.startAgent\<close>. The popped element is
  removed from the stack; the function returns the name and the stack that is left.
\<close>

definition getNextAgentName :: "string list \<Rightarrow> workflow \<Rightarrow> string \<times> string list" where
  "getNextAgentName stack workflow =
     (if stack = [] then (wf_startAgent workflow, [])
      else ((if last stack = [] then wf_startAgent workflow else last stack), butlast stack))"

subsection \<open>Greeting turn\<close>

definition default_greeting :: string where
  "default_greeting = ''How can I help you today?''"

definition emitGreetingTurn :: "workflow \<Rightarrow> outEvent list" where
  "emitGreetingTurn workflow =
     (let prompt =
            (case find (\<lambda>p. wp_type p = ''greeting'') (wf_prompts workflow) of
               None \<Rightarrow> default_greeting
             | Some p \<Rightarrow> if wp_prompt p \<noteq> [] then wp_prompt p else default_greeting)
      in [MessageEvent (AssistantMessage prompt (Some (wf_startAgent workflow)) External),
          UsageEvent UsageTracker_new])"

subsection \<open>Transfer events\<close>

definition createTransferEvents ::
  "runtime \<Rightarrow> nat \<Rightarrow> string \<Rightarrow> string \<Rightarrow> message \<times> message" where
  "createTransferEvents rt n fromAgent toAgent =
     (let toolCallId = randomUUID rt n;
          payload = JSON_stringify rt (JObject [(''assistant'', JString toAgent)])
      in (AssistantMessageWithToolCalls
            [\<lparr> tc_id = toolCallId, tc_name = ''transfer_to_agent'', tc_arguments = payload \<rparr>]
            (Some fromAgent),
          ToolMessage payload toolCallId ''transfer_to_agent''))"

subsection \<open>State of the turn loop\<close>

text \<open>
  The mutable locals of \<^verbatim>\<open>streamResponse\<close>, and its input and output so far:
  \<open>emitted\<close> holds the events yielded, in order; \<open>consumed\<close> holds the provider events
  read by the \<^verbatim>\<open>for await\<close> loops, in order (a history that nothing reads back);
  \<open>uuidCalls\<close> counts the calls of \<^verbatim>\<open>crypto.randomUUID\<close>.
\<close>

record loopState =
  agentName :: string
  stack :: "string list"
  turnMsgs :: "message list"
  usageTracker :: usage
  transferCounter :: "string \<rightharpoonup> nat"
  emitted :: "outEvent list"
  consumed :: "streamEvent list"
  uuidCalls :: nat

text \<open>\<^verbatim>\<open>turnMsgs.push(m); yield* emitEvent(logger, m)\<close>\<close>

definition emitMessage :: "message \<Rightarrow> loopState \<Rightarrow> loopState" where
  "emitMessage m st =
     st\<lparr> turnMsgs := turnMsgs st @ [m], emitted := emitted st @ [MessageEvent m] \<rparr>"

text \<open>
  The part common to both transfers: create the pair, push both messages, emit both,
  increment the transfer counter.
\<close>

definition recordTransfer :: "runtime \<Rightarrow> string \<Rightarrow> string \<Rightarrow> loopState \<Rightarrow> loopState" where
  "recordTransfer rt fromAgent toAgent st =
     (case createTransferEvents rt (uuidCalls st) fromAgent toAgent of
        (transferStart, transferComplete) \<Rightarrow>
          st\<lparr> turnMsgs := turnMsgs st @ [transferStart, transferComplete],
              emitted := emitted st @ [MessageEvent transferStart, MessageEvent transferComplete],
              transferCounter := AgentTransferCounter_increment (transferCounter st) fromAgent toAgent,
              uuidCalls := Suc (uuidCalls st) \<rparr>)"

subsection \<open>One provider event\<close>

datatype control = NextEvent | ContinueTurnLoop

text \<open>\<^verbatim>\<open>response_done\<close>: the loop over the outputs of the response.\<close>

fun handleOutput :: "loopState \<Rightarrow> responseOutput \<Rightarrow> loopState" where
  "handleOutput st (function_call callId name arguments) =
     (if \<not> prefix ''transfer_to'' name
      then emitMessage
             (AssistantMessageWithToolCalls
                [\<lparr> tc_id = callId, tc_name = name, tc_arguments = arguments \<rparr>]
                (Some (agentName st))) st
      else st)"
| "handleOutput st other_output = st"

text \<open>\<^verbatim>\<open>agentConfig[agentName]?.outputVisibility\<close>\<close>

definition visibility :: "compiled \<Rightarrow> string \<Rightarrow> outputVisibility option" where
  "visibility cfg name = map_option wa_outputVisibility (map_of (agentConfig cfg) name)"

text \<open>The loop over the parts of a message output.\<close>

fun handleContent :: "bool \<Rightarrow> loopState \<Rightarrow> messageContent \<Rightarrow> loopState" where
  "handleContent isInternal st (output_text text) =
     emitMessage
       (AssistantMessage text (Some (agentName st)) (if isInternal then Internal else External)) st"
| "handleContent isInternal st other_content = st"

text \<open>
  \<^verbatim>\<open>case 'run_item_stream_event'\<close>: the three \<^verbatim>\<open>if\<close> statements test the type of the
  item, so at most one of them applies to an item.
\<close>

fun handleRunItem ::
  "runtime \<Rightarrow> workflow \<Rightarrow> compiled \<Rightarrow> string \<Rightarrow> runItem \<Rightarrow> loopState \<Rightarrow> loopState \<times> control" where
  "handleRunItem rt workflow cfg name (handoff_output_item targetAgent) st =
     (if name = ''handoff_occurred''
      then (if agentName st = targetAgent then (st, NextEvent)
            else (let st1 = recordTransfer rt (agentName st) targetAgent st
                  in (st1\<lparr> stack := stack st1 @ [agentName st], agentName := targetAgent \<rparr>,
                      NextEvent)))
      else (st, NextEvent))"
| "handleRunItem rt workflow cfg name (tool_call_output_item r) st =
     (if fcr_type r = ''function_call_result'' \<and> fcr_status r = ''completed''
         \<and> fcr_output_type r = ''text''
      then (emitMessage (ToolMessage (fcr_output_text r) (fcr_callId r) (fcr_name r)) st, NextEvent)
      else (st, NextEvent))"
| "handleRunItem rt workflow cfg name (message_output_item rawType status contents) st =
     (if rawType = ''message'' \<and> status = ''completed''
      then (let isInternal = (visibility cfg (agentName st) = Some internal);
                st1 = foldl (handleContent isInternal) st contents
            in if isInternal
               then (let current = agentName st1;
                         (next, stack1) = getNextAgentName (stack st1) workflow;
                         st2 = recordTransfer rt current next st1
                     in (st2\<lparr> stack := stack1 @ [current], agentName := next \<rparr>,
                         ContinueTurnLoop))
               else (st1, NextEvent))
      else (st, NextEvent))"
| "handleRunItem rt workflow cfg name other_item st = (st, NextEvent)"

fun handleEvent ::
  "runtime \<Rightarrow> workflow \<Rightarrow> compiled \<Rightarrow> loopState \<Rightarrow> streamEvent \<Rightarrow> loopState \<times> control" where
  "handleEvent rt workflow cfg st (raw_model_stream_event (response_done outputs u)) =
     (let st0 = st\<lparr> consumed := consumed st @ [raw_model_stream_event (response_done outputs u)] \<rparr>;
          st1 = foldl handleOutput st0 outputs
      in (st1\<lparr> usageTracker :=
                  UsageTracker_increment (usageTracker st1)
                    (totalTokens u) (inputTokens u) (outputTokens u) \<rparr>,
          NextEvent))"
| "handleEvent rt workflow cfg st (raw_model_stream_event other_data) =
     (st\<lparr> consumed := consumed st @ [raw_model_stream_event other_data] \<rparr>, NextEvent)"
| "handleEvent rt workflow cfg st (run_item_stream_event name item) =
     handleRunItem rt workflow cfg name item
       (st\<lparr> consumed := consumed st @ [run_item_stream_event name item] \<rparr>)"
| "handleEvent rt workflow cfg st other_stream_event =
     (st\<lparr> consumed := consumed st @ [other_stream_event] \<rparr>, NextEvent)"

subsection \<open>One provider stream\<close>

text \<open>
  \<^verbatim>\<open>for await (const event of result)\<close>: the events in order, until the stream ends
  or an event makes the source \<^verbatim>\<open>continue turnLoop\<close>, which drops the rest.
\<close>

fun processEvents ::
  "runtime \<Rightarrow> workflow \<Rightarrow> compiled \<Rightarrow> loopState \<Rightarrow> streamEvent list \<Rightarrow> loopState \<times> control" where
  "processEvents rt workflow cfg st [] = (st, NextEvent)"
| "processEvents rt workflow cfg st (event # events) =
     (case handleEvent rt workflow cfg st event of
        (st1, ContinueTurnLoop) \<Rightarrow> (st1, ContinueTurnLoop)
      | (st1, NextEvent) \<Rightarrow> processEvents rt workflow cfg st1 events)"

subsection \<open>The turn loop\<close>

text \<open>The test after the stream (\<^verbatim>\<open>lastMessage\<close> is undefined for an empty transcript).\<close>

definition turnComplete :: "compiled \<Rightarrow> loopState \<Rightarrow> bool" where
  "turnComplete cfg st =
     (visibility cfg (agentName st) = Some user_facing
      \<and> turnMsgs st \<noteq> []
      \<and> role_of (last (turnMsgs st)) = assistant
      \<and> content_of (last (turnMsgs st)) \<noteq> None
      \<and> agentName_of (last (turnMsgs st)) = Some (agentName st))"

text \<open>
  One pass of the body of \<^verbatim>\<open>while (true)\<close>, for the value of \<^verbatim>\<open>iter\<close> after its
  increment: it throws, breaks out of the loop, or goes round again.
\<close>

datatype iterationResult =
    Throw error loopState
  | Break loopState
  | Again loopState

definition iteration ::
  "runtime \<Rightarrow> workflow \<Rightarrow> compiled \<Rightarrow> nat \<Rightarrow> loopState \<Rightarrow> iterationResult" where
  "iteration rt workflow cfg iter st =
     (if map_of (createAgents (agentConfig cfg)) (agentName st) = None
      then Throw AgentNotFound st
      else (case provider rt iter (agentName st) (convertMsgsInput (turnMsgs st)) of
              (events, failure) \<Rightarrow>
                (case processEvents rt workflow cfg st events of
                   (st1, ContinueTurnLoop) \<Rightarrow> Again st1
                 | (st1, NextEvent) \<Rightarrow>
                     (case failure of
                        Some e \<Rightarrow> Throw (ProviderError e) st1
                      | None \<Rightarrow> if turnComplete cfg st1 then Break st1 else Again st1))))"

text \<open>
  \<^verbatim>\<open>turnLoop: while (true)\<close>. The loop has no bound, so the function is partial:
  \<open>None\<close> means that the loop never ends. A result is the final state, with the
  exception when the loop ended by one.
\<close>

partial_function (option) turnLoop ::
  "runtime \<Rightarrow> workflow \<Rightarrow> compiled \<Rightarrow> nat \<Rightarrow> loopState \<Rightarrow> (loopState \<times> error option) option" where
  "turnLoop rt workflow cfg iter st =
     (case iteration rt workflow cfg (Suc iter) st of
        Throw e st1 \<Rightarrow> Some (st1, Some e)
      | Break st1 \<Rightarrow> Some (st1, None)
      | Again st1 \<Rightarrow> turnLoop rt workflow cfg (Suc iter) st1)"

subsection \<open>\<^verbatim>\<open>streamResponse\<close>\<close>

text \<open>
  The state at the first pass: the call stack of the transcript with its top popped
  as the active agent, the transcript copied into \<^verbatim>\<open>turnMsgs\<close>, fresh counters.
\<close>

definition initialState :: "workflow \<Rightarrow> message list \<Rightarrow> loopState" where
  "initialState workflow messages =
     (case getNextAgentName (createAgentCallStack messages) workflow of
        (name, stack1) \<Rightarrow>
          \<lparr> agentName = name, stack = stack1, turnMsgs = messages,
            usageTracker = UsageTracker_new, transferCounter = Map.empty,
            emitted = [], consumed = [], uuidCalls = 0 \<rparr>)"

text \<open>
  What the generator has yielded when it stops: after a normal exit of the loop the
  usage event follows the events of the loop; an exception ends the sequence.
\<close>

fun finish :: "loopState \<times> error option \<Rightarrow> outEvent list \<times> error option" where
  "finish (st, None) = (emitted st @ [UsageEvent (usageTracker st)], None)"
| "finish (st, Some e) = (emitted st, Some e)"

text \<open>
  The result is \<open>None\<close> when the generator never finishes, and otherwise the events
  yielded together with the exception that ended it, if any.
\<close>

definition streamResponse ::
  "runtime \<Rightarrow> workflow \<Rightarrow> workflowTool list \<Rightarrow> message list
     \<Rightarrow> (outEvent list \<times> error option) option" where
  "streamResponse rt workflow projectTools messages0 =
     (let messages = ensureSystemMessage messages0
      in if length messages = 1 \<and> role_of (hd messages) = system
         then Some (emitGreetingTurn workflow, None)
         else (let cfg = mapConfig workflow projectTools
               in case createTools (toolConfig cfg) of
                    Inl e \<Rightarrow> Some ([], Some e)
                  | Inr tools \<Rightarrow>
                      map_option finish
                        (turnLoop rt workflow cfg 0 (initialState workflow messages))))"

section \<open>Tool handlers\<close>

text \<open>
  A call that may raise returns a sum: \<open>Inl\<close> holds the thrown value as the template
  literal \<^verbatim>\<open>${error}\<close> renders it, \<open>Inr\<close> the value returned. The calls into other
  systems (text generation, the MCP client, Composio, the databases, the embedding
  model, the vector store) are parameters.
\<close>

definition then_do :: "string + 'a \<Rightarrow> ('a \<Rightarrow> string + 'b) \<Rightarrow> string + 'b" where
  "then_do r f = (case r of Inl e \<Rightarrow> Inl e | Inr v \<Rightarrow> f v)"

text \<open>\<^verbatim>\<open>try { body } catch (error) { handler }\<close>\<close>

definition try_catch :: "string + 'a \<Rightarrow> (string \<Rightarrow> string + 'a) \<Rightarrow> string + 'a" where
  "try_catch body handler = (case body of Inl e \<Rightarrow> handler e | Inr v \<Rightarrow> Inr v)"

text \<open>\<^verbatim>\<open>x || ''\<close> for a string that may be undefined.\<close>

fun or_empty :: "string option \<Rightarrow> string" where
  "or_empty None = []"
| "or_empty (Some s) = s"

definition sq :: string where
  "sq = [CHR 0x27]"

subsection \<open>Mock tools\<close>

text \<open>\<open>generateText\<close> takes the contents of the system and of the user message.\<close>

definition invokeMockTool ::
  "(string \<Rightarrow> string \<Rightarrow> string + string) \<Rightarrow> string \<Rightarrow> string \<Rightarrow> string \<Rightarrow> string
     \<Rightarrow> string + string" where
  "invokeMockTool generateText toolName args description mockInstructions =
     generateText
       (''You are simulating the execution of a tool called '' @ sq @ toolName @ sq
          @ ''. Here is the description of the tool: '' @ description
          @ ''. Here are the instructions for the mock tool: '' @ mockInstructions
          @ ''. Generate a realistic response as if the tool was actually executed with the given parameters.'')
       (''Generate a realistic response for the tool '' @ sq @ toolName @ sq
          @ '' with these parameters: '' @ args
          @ ''. The response should be concise and focused on what the tool would actually return.'')"

text \<open>The \<^verbatim>\<open>execute\<close> handler of the tool that \<^verbatim>\<open>createMockTool\<close> builds.\<close>

definition createMockTool_execute ::
  "(json \<Rightarrow> string) \<Rightarrow> (string \<Rightarrow> string \<Rightarrow> string + string) \<Rightarrow> workflowTool \<Rightarrow> string
     \<Rightarrow> string + string" where
  "createMockTool_execute stringify generateText config query =
     try_catch
       (then_do
          (invokeMockTool generateText (wt_name config)
             (stringify (JObject [(''query'', JString query)]))
             (wt_description config) (or_empty (wt_mockInstructions config)))
          (\<lambda>result. Inr (stringify (JObject [(''result'', JString result)]))))
       (\<lambda>error. Inr (stringify
                       (JObject [(''error'', JString (''Mock tool execution failed: '' @ error))])))"

subsection \<open>MCP tools\<close>

record mcpBackend =
  getMcpClient :: "string \<Rightarrow> string \<Rightarrow> string + nat"
  callTool :: "nat \<Rightarrow> string \<Rightarrow> json \<Rightarrow> string + json"
  closeClient :: "nat \<Rightarrow> string + unit"

definition invokeMcpTool ::
  "mcpBackend \<Rightarrow> string \<Rightarrow> string \<Rightarrow> json \<Rightarrow> string \<Rightarrow> string \<Rightarrow> string + json" where
  "invokeMcpTool mcp projectId name input mcpServerURL mcpServerName =
     then_do (getMcpClient mcp mcpServerURL mcpServerName) (\<lambda>client.
     then_do (callTool mcp client name input) (\<lambda>result.
     then_do (closeClient mcp client) (\<lambda>_. Inr result)))"

definition createMcpTool_execute ::
  "(json \<Rightarrow> string) \<Rightarrow> mcpBackend \<Rightarrow> workflowTool \<Rightarrow> string \<Rightarrow> json \<Rightarrow> string + string" where
  "createMcpTool_execute stringify mcp config projectId input =
     try_catch
       (then_do
          (invokeMcpTool mcp projectId (wt_name config) input
             (or_empty (wt_mcpServerURL config)) (or_empty (wt_mcpServerName config)))
          (\<lambda>result. Inr (stringify (JObject [(''result'', result)]))))
       (\<lambda>error. Inr (stringify
                       (JObject [(''error'', JString (''Tool execution failed: '' @ error))])))"

subsection \<open>Composio tools\<close>

text \<open>
  \<open>findProject\<close> is \<^verbatim>\<open>projectsCollection.findOne\<close>; a project is represented by its
  \<^verbatim>\<open>composioConnectedAccounts\<close>, from toolkit slug to the \<^verbatim>\<open>id\<close> of the account.
  \<open>composioExecute\<close> gives the \<^verbatim>\<open>data\<close> of the result.
\<close>

record composioBackend =
  findProject :: "string \<Rightarrow> string + (string \<rightharpoonup> string) option"
  composioExecute :: "string \<Rightarrow> string \<Rightarrow> json \<Rightarrow> string option \<Rightarrow> string + json"

definition resolveConnectedAccount ::
  "composioBackend \<Rightarrow> string \<Rightarrow> composioData \<Rightarrow> string + string option" where
  "resolveConnectedAccount cb projectId cdata =
     (if \<not> cd_noAuth cdata
      then then_do (findProject cb projectId) (\<lambda>project.
             case project of
               None \<Rightarrow> Inl (''Error: project '' @ projectId @ '' not found'')
             | Some accounts \<Rightarrow>
                 (if \<not> truthy (accounts (cd_toolkitSlug cdata))
                  then Inl (''Error: connected account id not found for project '' @ projectId
                            @ '' and toolkit '' @ cd_toolkitSlug cdata)
                  else Inr (accounts (cd_toolkitSlug cdata))))
      else Inr None)"

definition invokeComposioTool ::
  "composioBackend \<Rightarrow> string \<Rightarrow> string \<Rightarrow> composioData \<Rightarrow> json \<Rightarrow> string + json" where
  "invokeComposioTool cb projectId name cdata input =
     then_do (resolveConnectedAccount cb projectId cdata) (\<lambda>connectedAccountId.
       composioExecute cb (cd_slug cdata) projectId input connectedAccountId)"

text \<open>
  \<^verbatim>\<open>createComposioTool\<close> throws when \<^verbatim>\<open>composioData\<close> is missing, so the handler exists
  only for a tool that has it; the handler takes it as an argument.
\<close>

definition createComposioTool_execute ::
  "(json \<Rightarrow> string) \<Rightarrow> composioBackend \<Rightarrow> workflowTool \<Rightarrow> composioData \<Rightarrow> string \<Rightarrow> json
     \<Rightarrow> string + string" where
  "createComposioTool_execute stringify cb config cdata projectId input =
     try_catch
       (then_do
          (invokeComposioTool cb projectId (wt_name config) cdata input)
          (\<lambda>result. Inr (stringify (JObject [(''result'', result)]))))
       (\<lambda>error. Inr (stringify
                       (JObject [(''error'', JString (''Tool execution failed: '' @ error))])))"

subsection \<open>The RAG tool\<close>

record dataSource =
  ds_id :: string
  ds_projectId :: string
  ds_active :: bool

record ragRecord =
  rr_title :: string
  rr_name :: string
  rr_content :: string
  rr_docId :: string
  rr_sourceId :: string

datatype ragReturnType = chunks | content

text \<open>
  \<open>rb_embed\<close> is \<^verbatim>\<open>embed\<close>; \<open>rb_dataSources\<close> is the data-source collection as the
  query finds it (or the error of the query); \<open>rb_query\<close> is the vector search, from
  the embedding, the project id, the valid source ids and the limit to the
  payloads of the points; \<open>rb_findDocs\<close> looks documents up by id and gives their ids
  and contents.
\<close>

record ragBackend =
  rb_embed :: "string \<Rightarrow> string + int list"
  rb_dataSources :: "string + dataSource list"
  rb_query :: "int list \<Rightarrow> string \<Rightarrow> string list \<Rightarrow> nat \<Rightarrow> string + ragRecord list"
  rb_findDocs :: "string list \<Rightarrow> string + (string \<times> string) list"

definition validSourceIds :: "dataSource list \<Rightarrow> string \<Rightarrow> string list \<Rightarrow> string list" where
  "validSourceIds collection projectId sourceIds =
     (let sources = filter (\<lambda>s. ds_projectId s = projectId \<and> ds_active s) collection
      in map ds_id (filter ds_active (filter (\<lambda>s. ds_id s \<in> set sourceIds) sources)))"

definition invokeRagTool ::
  "ragBackend \<Rightarrow> string \<Rightarrow> string \<Rightarrow> string list \<Rightarrow> ragReturnType \<Rightarrow> nat
     \<Rightarrow> string + ragRecord list" where
  "invokeRagTool rb projectId query sourceIds returnType k =
     then_do (rb_embed rb query) (\<lambda>embedding.
     then_do (rb_dataSources rb) (\<lambda>collection.
       let valid = validSourceIds collection projectId sourceIds
       in if length valid = 0 then Inr []
          else then_do (rb_query rb embedding projectId valid k) (\<lambda>results.
                 if returnType = chunks then Inr results
                 else then_do (rb_findDocs rb (map rr_docId results)) (\<lambda>docs.
                        Inr (map (\<lambda>r. r\<lparr> rr_content :=
                                           (case find (\<lambda>d. fst d = rr_docId r) docs of
                                              None \<Rightarrow> []
                                            | Some d \<Rightarrow> snd d) \<rparr>)
                                 results)))))"

section \<open>Specification-side definitions\<close>

text \<open>
  These definitions follow the words of the specification, not the source; the
  theorems compare them with the functions above.
\<close>

subsection \<open>Provider input, message by message\<close>

text \<open>
  What the specification says of one message: a system or a user message passes
  through, an assistant message with text becomes a sender block, anything else is
  left out. \<open>None\<close> means that nothing is forwarded.
\<close>

fun provider_item :: "message \<Rightarrow> agentInputItem option" where
  "provider_item (SystemMessage c) = Some (input_system c)"
| "provider_item (UserMessage c) = Some (input_user c)"
| "provider_item (AssistantMessage c a r) =
     (if c = [] then None
      else Some (input_assistant
                   (''Sender agent: '' @ template_string a @ [CHR 0x0A] @ ''Content: '' @ c)))"
| "provider_item (AssistantMessageWithToolCalls tcs a) = None"
| "provider_item (ToolMessage c i n) = None"

subsection \<open>Usage deltas\<close>

text \<open>The usage block of a completed response; any other event carries none.\<close>

fun usage_delta :: "streamEvent \<Rightarrow> usage" where
  "usage_delta (raw_model_stream_event (response_done outputs u)) =
     \<lparr> u_total = totalTokens u, u_prompt = inputTokens u, u_completion = outputTokens u \<rparr>"
| "usage_delta e = \<lparr> u_total = 0, u_prompt = 0, u_completion = 0 \<rparr>"

definition usage_plus :: "usage \<Rightarrow> usage \<Rightarrow> usage" where
  "usage_plus a b =
     \<lparr> u_total = u_total a + u_total b, u_prompt = u_prompt a + u_prompt b,
       u_completion = u_completion a + u_completion b \<rparr>"

definition usage_le :: "usage \<Rightarrow> usage \<Rightarrow> bool" where
  "usage_le a b =
     (u_total a \<le> u_total b \<and> u_prompt a \<le> u_prompt b \<and> u_completion a \<le> u_completion b)"

text \<open>The componentwise sum of the deltas of a sequence of events.\<close>

definition usage_sum :: "streamEvent list \<Rightarrow> usage" where
  "usage_sum events =
     \<lparr> u_total = sum_list (map (\<lambda>e. u_total (usage_delta e)) events),
       u_prompt = sum_list (map (\<lambda>e. u_prompt (usage_delta e)) events),
       u_completion = sum_list (map (\<lambda>e. u_completion (usage_delta e)) events) \<rparr>"

definition nonnegative_counts :: "streamEvent \<Rightarrow> bool" where
  "nonnegative_counts e = usage_le \<lparr> u_total = 0, u_prompt = 0, u_completion = 0 \<rparr> (usage_delta e)"

subsection \<open>Events that move control, and the events read from a stream\<close>

text \<open>A message output that is completed.\<close>

fun completed_message :: "streamEvent \<Rightarrow> bool" where
  "completed_message (run_item_stream_event name (message_output_item rawType status contents)) =
     (rawType = ''message'' \<and> status = ''completed'')"
| "completed_message e = False"

text \<open>The target of a hand-off event; \<open>None\<close> for an event that is no hand-off.\<close>

fun handoff_target :: "streamEvent \<Rightarrow> string option" where
  "handoff_target (run_item_stream_event name (handoff_output_item target)) =
     (if name = ''handoff_occurred'' then Some target else None)"
| "handoff_target e = None"

text \<open>The active agent after an event that does not re-enter the loop.\<close>

definition agent_after :: "string \<Rightarrow> streamEvent \<Rightarrow> string" where
  "agent_after active e = (case handoff_target e of None \<Rightarrow> active | Some target \<Rightarrow> target)"

text \<open>
  An event keeps control with the active agent when it is neither a completed message
  nor a hand-off to another agent.
\<close>

definition keeps_control :: "string \<Rightarrow> streamEvent \<Rightarrow> bool" where
  "keeps_control active e =
     (\<not> completed_message e \<and> (handoff_target e = None \<or> handoff_target e = Some active))"

text \<open>An event re-enters the loop when it is a completed message of an internal agent.\<close>

definition reenters :: "compiled \<Rightarrow> string \<Rightarrow> streamEvent \<Rightarrow> bool" where
  "reenters cfg active e = (completed_message e \<and> visibility cfg active = Some internal)"

text \<open>
  The events of a stream that are read: all of them up to and including the first
  one that re-enters the loop, the active agent following the hand-offs; the
  events after it are discarded.
\<close>

fun read_events :: "compiled \<Rightarrow> string \<Rightarrow> streamEvent list \<Rightarrow> streamEvent list" where
  "read_events cfg active [] = []"
| "read_events cfg active (e # es) =
     (if reenters cfg active e then [e]
      else e # read_events cfg (agent_after active e) es)"

subsection \<open>The loop, a bounded number of passes\<close>

text \<open>
  The first \<open>n\<close> passes of the turn loop: the result of the pass that ends the loop,
  or \<open>Again\<close> with the state reached when \<open>n\<close> passes have gone round.
\<close>

fun passes ::
  "runtime \<Rightarrow> workflow \<Rightarrow> compiled \<Rightarrow> nat \<Rightarrow> nat \<Rightarrow> loopState \<Rightarrow> iterationResult" where
  "passes rt workflow cfg 0 iter st = Again st"
| "passes rt workflow cfg (Suc n) iter st =
     (case iteration rt workflow cfg (Suc iter) st of
        Again st1 \<Rightarrow> passes rt workflow cfg n (Suc iter) st1
      | Throw e st1 \<Rightarrow> Throw e st1
      | Break st1 \<Rightarrow> Break st1)"

text \<open>
  The events read in one pass, from the stream that the provider gives for the state
  at the start of the pass (none when the active agent is unknown), and in the
  first \<open>n\<close> passes.
\<close>

definition pass_events :: "runtime \<Rightarrow> compiled \<Rightarrow> nat \<Rightarrow> loopState \<Rightarrow> streamEvent list" where
  "pass_events rt cfg iter st =
     (if map_of (createAgents (agentConfig cfg)) (agentName st) = None then []
      else read_events cfg (agentName st)
             (fst (provider rt iter (agentName st) (convertMsgsInput (turnMsgs st)))))"

fun loop_events ::
  "runtime \<Rightarrow> workflow \<Rightarrow> compiled \<Rightarrow> nat \<Rightarrow> nat \<Rightarrow> loopState \<Rightarrow> streamEvent list" where
  "loop_events rt workflow cfg 0 iter st = []"
| "loop_events rt workflow cfg (Suc n) iter st =
     pass_events rt cfg (Suc iter) st
     @ (case iteration rt workflow cfg (Suc iter) st of
          Again st1 \<Rightarrow> loop_events rt workflow cfg n (Suc iter) st1
        | Throw e st1 \<Rightarrow> []
        | Break st1 \<Rightarrow> [])"

text \<open>The last event of an invocation that ended normally.\<close>

fun last_event :: "(outEvent list \<times> error option) option \<Rightarrow> outEvent option" where
  "last_event (Some (out, None)) = (if out = [] then None else Some (last out))"
| "last_event r = None"

section \<open>Example configurations\<close>

text \<open>A stand-in for \<^verbatim>\<open>JSON.stringify\<close>, enough to tell the payloads apart.\<close>

fun json_text :: "json \<Rightarrow> string" where
  "json_text (JObject [(k, JString v)]) = k @ ''='' @ v"
| "json_text j = ''json''"

subsection \<open>One user-facing agent\<close>

definition solo_workflow :: workflow where
  "solo_workflow =
     \<lparr> wf_projectId = ''p1'', wf_startAgent = ''main'',
       wf_agents = [\<lparr> wa_name = ''main'', wa_outputVisibility = user_facing,
                      wa_connectedAgents = [] \<rparr>],
       wf_prompts = [], wf_tools = [] \<rparr>"

definition solo_events :: "streamEvent list" where
  "solo_events =
     [raw_model_stream_event
        (response_done [] \<lparr> totalTokens = 30, inputTokens = 20, outputTokens = 10 \<rparr>),
      run_item_stream_event ''message_output_created''
        (message_output_item ''message'' ''completed'' [output_text ''Hello!''])]"

definition solo_runtime :: runtime where
  "solo_runtime =
     \<lparr> provider = (\<lambda>iter agent inputs. (solo_events, None)),
       randomUUID = (\<lambda>n. ''uuid''),
       JSON_stringify = json_text \<rparr>"

definition solo_messages :: "message list" where
  "solo_messages = [SystemMessage ''Be brief.'', UserMessage ''Hi'']"

text \<open>The state in which the loop of the first example ends.\<close>

definition solo_final :: loopState where
  "solo_final =
     \<lparr> agentName = ''main'', stack = [],
       turnMsgs = [SystemMessage ''Be brief.'', UserMessage ''Hi'',
                   AssistantMessage ''Hello!'' (Some ''main'') External],
       usageTracker = \<lparr> u_total = 30, u_prompt = 20, u_completion = 10 \<rparr>,
       transferCounter = Map.empty,
       emitted = [MessageEvent (AssistantMessage ''Hello!'' (Some ''main'') External)],
       consumed = solo_events, uuidCalls = 0 \<rparr>"

subsection \<open>A chain of internal agents\<close>

definition chain_workflow :: workflow where
  "chain_workflow =
     \<lparr> wf_projectId = ''p1'', wf_startAgent = ''P'',
       wf_agents =
         [\<lparr> wa_name = ''P'', wa_outputVisibility = user_facing, wa_connectedAgents = [''X''] \<rparr>,
          \<lparr> wa_name = ''X'', wa_outputVisibility = internal, wa_connectedAgents = [''Y''] \<rparr>,
          \<lparr> wa_name = ''Y'', wa_outputVisibility = internal, wa_connectedAgents = [''Z''] \<rparr>,
          \<lparr> wa_name = ''Z'', wa_outputVisibility = internal, wa_connectedAgents = [] \<rparr>],
       wf_prompts = [], wf_tools = [] \<rparr>"

definition chain_runtime :: runtime where
  "chain_runtime =
     \<lparr> provider = (\<lambda>iter agent inputs. ([], None)),
       randomUUID = (\<lambda>n. ''uuid''),
       JSON_stringify = json_text \<rparr>"

text \<open>\<open>P\<close> has handed off to \<open>X\<close>: \<open>X\<close> is active and its caller \<open>P\<close> is on the stack.\<close>

definition chain_state :: loopState where
  "chain_state =
     \<lparr> agentName = ''X'', stack = [''P''],
       turnMsgs = [SystemMessage ''Be brief.'', UserMessage ''Hi''],
       usageTracker = UsageTracker_new, transferCounter = Map.empty,
       emitted = [], consumed = [], uuidCalls = 0 \<rparr>"

definition chain_events :: "streamEvent list" where
  "chain_events =
     [run_item_stream_event ''handoff_occurred'' (handoff_output_item ''Y''),
      run_item_stream_event ''message_output_created''
        (message_output_item ''message'' ''completed'' [output_text ''done''])]"

text \<open>The same stream with the result of a tool call of \<open>Y\<close> before its message.\<close>

definition chain_events_tool :: "streamEvent list" where
  "chain_events_tool =
     [run_item_stream_event ''handoff_occurred'' (handoff_output_item ''Y''),
      run_item_stream_event ''tool_output''
        (tool_call_output_item
           \<lparr> fcr_type = ''function_call_result'', fcr_status = ''completed'',
             fcr_output_type = ''text'', fcr_output_text = ''42'', fcr_callId = ''c1'',
             fcr_name = ''lookup'' \<rparr>),
      run_item_stream_event ''message_output_created''
        (message_output_item ''message'' ''completed'' [output_text ''done''])]"

subsection \<open>Two agents that hand control to each other\<close>

text \<open>
  The user-facing agent \<open>A\<close> delegates to the internal agent \<open>B\<close>. In every run
  the active agent hands off to \<open>B\<close>, and \<open>B\<close> answers with a message.
\<close>

definition pingpong_workflow :: workflow where
  "pingpong_workflow =
     \<lparr> wf_projectId = ''p1'', wf_startAgent = ''A'',
       wf_agents =
         [\<lparr> wa_name = ''A'', wa_outputVisibility = user_facing, wa_connectedAgents = [''B''] \<rparr>,
          \<lparr> wa_name = ''B'', wa_outputVisibility = internal, wa_connectedAgents = [] \<rparr>],
       wf_prompts = [], wf_tools = [] \<rparr>"

definition pingpong_events :: "streamEvent list" where
  "pingpong_events =
     [run_item_stream_event ''handoff_occurred'' (handoff_output_item ''B''),
      run_item_stream_event ''message_output_created''
        (message_output_item ''message'' ''completed'' [output_text ''done''])]"

definition pingpong_runtime :: runtime where
  "pingpong_runtime =
     \<lparr> provider = (\<lambda>iter agent inputs. (pingpong_events, None)),
       randomUUID = (\<lambda>n. ''uuid''),
       JSON_stringify = json_text \<rparr>"

definition pingpong_messages :: "message list" where
  "pingpong_messages = [SystemMessage ''Be brief.'', UserMessage ''Hi'']"

text \<open>
  The same workflow with another provider. The stream of the first pass holds a
  completed response after the message of the internal agent \<open>B\<close>; in the second
  pass \<open>A\<close> answers the user.
\<close>

definition reentry_stream_first :: "streamEvent list" where
  "reentry_stream_first =
     [run_item_stream_event ''handoff_occurred'' (handoff_output_item ''B''),
      run_item_stream_event ''message_output_created''
        (message_output_item ''message'' ''completed'' [output_text ''done'']),
      raw_model_stream_event
        (response_done [] \<lparr> totalTokens = 7, inputTokens = 5, outputTokens = 2 \<rparr>)]"

definition reentry_stream_second :: "streamEvent list" where
  "reentry_stream_second =
     [raw_model_stream_event
        (response_done [] \<lparr> totalTokens = 30, inputTokens = 20, outputTokens = 10 \<rparr>),
      run_item_stream_event ''message_output_created''
        (message_output_item ''message'' ''completed'' [output_text ''Hello!''])]"

definition reentry_runtime :: runtime where
  "reentry_runtime =
     \<lparr> provider = (\<lambda>iter agent inputs.
          (if iter = 1 then reentry_stream_first else reentry_stream_second, None)),
       randomUUID = (\<lambda>n. ''uuid''),
       JSON_stringify = json_text \<rparr>"

subsection \<open>A greeting and a tool that cannot be built\<close>

definition greeting_workflow :: workflow where
  "greeting_workflow =
     \<lparr> wf_projectId = ''p1'', wf_startAgent = ''main'',
       wf_agents = [\<lparr> wa_name = ''main'', wa_outputVisibility = user_facing,
                      wa_connectedAgents = [] \<rparr>],
       wf_prompts = [\<lparr> wp_name = ''style'', wp_type = ''base_prompt'', wp_prompt = ''Be kind.'' \<rparr>,
                     \<lparr> wp_name = ''hello'', wp_type = ''greeting'', wp_prompt = ''Welcome!'' \<rparr>],
       wf_tools = [\<lparr> wt_name = ''mail'', wt_description = ''send mail'', wt_isMcp = False,
                     wt_isComposio = True, wt_mockTool = False, wt_mockInstructions = None,
                     wt_mcpServerName = None, wt_mcpServerURL = None,
                     wt_composioData = None \<rparr>] \<rparr>"

subsection \<open>Tool back ends\<close>

definition mock_config :: workflowTool where
  "mock_config =
     \<lparr> wt_name = ''weather'', wt_description = ''the weather'', wt_isMcp = False,
       wt_isComposio = False, wt_mockTool = True, wt_mockInstructions = None,
       wt_mcpServerName = None, wt_mcpServerURL = None, wt_composioData = None \<rparr>"

definition failing_mcp :: mcpBackend where
  "failing_mcp =
     \<lparr> getMcpClient = (\<lambda>url name. Inr 0),
       callTool = (\<lambda>client name input. Inl ''Error: timeout''),
       closeClient = (\<lambda>client. Inr ()) \<rparr>"

definition working_composio :: composioBackend where
  "working_composio =
     \<lparr> findProject = (\<lambda>projectId. Inr (Some (Map.empty(''gmail'' \<mapsto> ''acct1'')))),
       composioExecute = (\<lambda>slug userId input account. Inr (JString ''sent'')) \<rparr>"

definition gmail_data :: composioData where
  "gmail_data = \<lparr> cd_slug = ''GMAIL_SEND'', cd_toolkitSlug = ''gmail'', cd_noAuth = False \<rparr>"

text \<open>An embedding model that is down, and one that works; no data source is stored.\<close>

definition rag_embed_down :: ragBackend where
  "rag_embed_down =
     \<lparr> rb_embed = (\<lambda>query. Inl ''Error: embedding request failed''),
       rb_dataSources = Inr [],
       rb_query = (\<lambda>embedding projectId ids k. Inr []),
       rb_findDocs = (\<lambda>ids. Inr []) \<rparr>"

definition rag_inactive :: ragBackend where
  "rag_inactive =
     \<lparr> rb_embed = (\<lambda>query. Inr [1, 2, 3]),
       rb_dataSources = Inr [\<lparr> ds_id = ''s1'', ds_projectId = ''p1'', ds_active = False \<rparr>,
                             \<lparr> ds_id = ''s2'', ds_projectId = ''p1'', ds_active = True \<rparr>],
       rb_query = (\<lambda>embedding projectId ids k. Inl ''Error: vector store down''),
       rb_findDocs = (\<lambda>ids. Inr []) \<rparr>"

section \<open>Theorems\<close>

subsection \<open>The leading system message\<close>

text \<open>
  C3, as amended. When a transcript is not empty and its first message is not a
  system message, \<^verbatim>\<open>ensureSystemMessage\<close> prepends exactly one system message with the
  content "You are a helpful assistant." and keeps the rest, so that the first
  message is a system message afterwards; and a leading system message with empty
  content gets that same content.
\<close>

theorem ensureSystemMessage_repairs:
  "(role_of m \<noteq> system \<longrightarrow>
      ensureSystemMessage (m # ms) = SystemMessage ''You are a helpful assistant.'' # m # ms
      \<and> role_of (hd (ensureSystemMessage (m # ms))) = system)
   \<and> ensureSystemMessage (SystemMessage [] # ms)
       = SystemMessage ''You are a helpful assistant.'' # ms"
  by (simp add: ensureSystemMessage_def default_system_prompt_def Let_def)

text \<open>
  C3 as stated fails: the empty transcript has no leading system message, and the
  test on the length of the transcript leaves it empty, so that it has no first
  message afterwards either.
\<close>

theorem ensureSystemMessage_empty_counterexample:
  "ensureSystemMessage [] = [] \<and> length (ensureSystemMessage []) = 0"
  by (simp add: ensureSystemMessage_def)

theorem ensureSystemMessage_repairs_witness:
  "role_of (UserMessage ''Hi'') \<noteq> system
   \<and> ensureSystemMessage [UserMessage ''Hi'']
       = [SystemMessage ''You are a helpful assistant.'', UserMessage ''Hi'']
   \<and> role_of (hd (ensureSystemMessage [UserMessage ''Hi''])) = system
   \<and> ensureSystemMessage [SystemMessage [], UserMessage ''Hi'']
       = [SystemMessage ''You are a helpful assistant.'', UserMessage ''Hi'']"
  using ensureSystemMessage_repairs [of "UserMessage ''Hi''" "[]"]
        ensureSystemMessage_repairs [of "UserMessage ''Hi''" "[UserMessage ''Hi'']"]
  by simp

subsection \<open>The greeting turn\<close>

lemma find_in_set: "find P xs = Some x \<Longrightarrow> x \<in> set xs \<and> P x"
  by (induction xs) (auto split: if_splits)

lemma find_none: "\<forall>x \<in> set xs. \<not> P x \<Longrightarrow> find P xs = None"
  by (induction xs) auto

text \<open>
  C4. When the transcript, after the repair of its system message, is one system
  message, \<^verbatim>\<open>streamResponse\<close> ends after two events: one assistant message, tagged with
  the start agent and external visibility, whose content \<open>g\<close> is the fallback
  "How can I help you today?" or the text of a greeting prompt of the workflow (of
  the first one, when that text is not empty; the fallback when there is none), and
  then one usage event with all counters zero. This holds for every workflow and
  every list of project tools, also those for which building the tools would fail:
  tools and agents are not built on this path.
\<close>

theorem greeting_turn:
  assumes "ensureSystemMessage messages = [SystemMessage c]"
  shows "\<exists>g. streamResponse rt workflow projectTools messages
              = Some ([MessageEvent (AssistantMessage g (Some (wf_startAgent workflow)) External),
                       UsageEvent \<lparr> u_total = 0, u_prompt = 0, u_completion = 0 \<rparr>], None)
          \<and> (g = ''How can I help you today?''
               \<or> (\<exists>p \<in> set (wf_prompts workflow). wp_type p = ''greeting'' \<and> wp_prompt p = g))
          \<and> (\<forall>p. find (\<lambda>p. wp_type p = ''greeting'') (wf_prompts workflow) = Some p
                   \<and> wp_prompt p \<noteq> [] \<longrightarrow> g = wp_prompt p)
          \<and> ((\<forall>p \<in> set (wf_prompts workflow). wp_type p \<noteq> ''greeting'')
                \<longrightarrow> g = ''How can I help you today?'')"
proof -
  let ?found = "find (\<lambda>p. wp_type p = ''greeting'') (wf_prompts workflow)"
  let ?g = "case ?found of None \<Rightarrow> default_greeting
            | Some p \<Rightarrow> if wp_prompt p \<noteq> [] then wp_prompt p else default_greeting"
  have run: "streamResponse rt workflow projectTools messages
              = Some ([MessageEvent (AssistantMessage ?g (Some (wf_startAgent workflow)) External),
                       UsageEvent \<lparr> u_total = 0, u_prompt = 0, u_completion = 0 \<rparr>], None)"
    using assms by (simp add: streamResponse_def emitGreetingTurn_def UsageTracker_new_def)
  have origin: "?g = ''How can I help you today?''
                \<or> (\<exists>p \<in> set (wf_prompts workflow). wp_type p = ''greeting'' \<and> wp_prompt p = ?g)"
  proof (cases ?found)
    case None
    then show ?thesis by (simp add: default_greeting_def)
  next
    case (Some p)
    with find_in_set [of "\<lambda>p. wp_type p = ''greeting''" "wf_prompts workflow" p]
    show ?thesis by (auto simp: default_greeting_def)
  qed
  have first: "\<forall>p. ?found = Some p \<and> wp_prompt p \<noteq> [] \<longrightarrow> ?g = wp_prompt p"
    by simp
  have absent: "(\<forall>p \<in> set (wf_prompts workflow). wp_type p \<noteq> ''greeting'')
                \<longrightarrow> ?g = ''How can I help you today?''"
    using find_none [of "wf_prompts workflow" "\<lambda>p. wp_type p = ''greeting''"]
    by (auto simp: default_greeting_def)
  from run origin first absent show ?thesis by blast
qed

theorem greeting_turn_witness:
  "ensureSystemMessage [SystemMessage []] = [SystemMessage ''You are a helpful assistant.'']
   \<and> createTools (toolConfig (mapConfig greeting_workflow [])) = Inl (ComposioDataNotFound ''mail'')
   \<and> streamResponse solo_runtime greeting_workflow [] [SystemMessage []]
       = Some ([MessageEvent (AssistantMessage ''Welcome!'' (Some ''main'') External),
                UsageEvent \<lparr> u_total = 0, u_prompt = 0, u_completion = 0 \<rparr>], None)"
proof -
  have repaired: "ensureSystemMessage [SystemMessage []] = [SystemMessage ''You are a helpful assistant.'']"
    by (simp add: ensureSystemMessage_def default_system_prompt_def)
  have tools: "createTools (toolConfig (mapConfig greeting_workflow []))
                = Inl (ComposioDataNotFound ''mail'')"
    by (simp add: mapConfig_def greeting_workflow_def)
  have found: "find (\<lambda>p. wp_type p = ''greeting'') (wf_prompts greeting_workflow)
                = Some \<lparr> wp_name = ''hello'', wp_type = ''greeting'', wp_prompt = ''Welcome!'' \<rparr>"
    by (simp add: greeting_workflow_def)
  from greeting_turn [OF repaired, of solo_runtime greeting_workflow "[]"] found
  have "streamResponse solo_runtime greeting_workflow [] [SystemMessage []]
       = Some ([MessageEvent (AssistantMessage ''Welcome!'' (Some (wf_startAgent greeting_workflow)) External),
                UsageEvent \<lparr> u_total = 0, u_prompt = 0, u_completion = 0 \<rparr>], None)"
    by auto
  with repaired tools show ?thesis by (simp add: greeting_workflow_def)
qed

subsection \<open>Tool handlers\<close>

text \<open>
  C6. For a mock, an MCP and a Composio tool: when the underlying invocation throws
  \<open>e\<close>, the handler returns the JSON text of an object with the one key
  \<^verbatim>\<open>error\<close>, whose message ends with \<open>e\<close>; when it returns a value, the handler
  returns the JSON text of that value under the one key \<^verbatim>\<open>result\<close>. In every case
  the handler returns (\<open>Inr\<close>): no exception leaves it.
\<close>

theorem tool_handlers_catch:
  "(invokeMockTool generateText (wt_name config) (stringify (JObject [(''query'', JString query)]))
        (wt_description config) (or_empty (wt_mockInstructions config)) = Inl e \<longrightarrow>
      createMockTool_execute stringify generateText config query
        = Inr (stringify (JObject [(''error'', JString (''Mock tool execution failed: '' @ e))])))
   \<and> (invokeMockTool generateText (wt_name config) (stringify (JObject [(''query'', JString query)]))
        (wt_description config) (or_empty (wt_mockInstructions config)) = Inr reply \<longrightarrow>
      createMockTool_execute stringify generateText config query
        = Inr (stringify (JObject [(''result'', JString reply)])))
   \<and> (invokeMcpTool mcp projectId (wt_name config) input
        (or_empty (wt_mcpServerURL config)) (or_empty (wt_mcpServerName config)) = Inl e \<longrightarrow>
      createMcpTool_execute stringify mcp config projectId input
        = Inr (stringify (JObject [(''error'', JString (''Tool execution failed: '' @ e))])))
   \<and> (invokeMcpTool mcp projectId (wt_name config) input
        (or_empty (wt_mcpServerURL config)) (or_empty (wt_mcpServerName config)) = Inr result \<longrightarrow>
      createMcpTool_execute stringify mcp config projectId input
        = Inr (stringify (JObject [(''result'', result)])))
   \<and> (invokeComposioTool cb projectId (wt_name config) cdata input = Inl e \<longrightarrow>
      createComposioTool_execute stringify cb config cdata projectId input
        = Inr (stringify (JObject [(''error'', JString (''Tool execution failed: '' @ e))])))
   \<and> (invokeComposioTool cb projectId (wt_name config) cdata input = Inr result \<longrightarrow>
      createComposioTool_execute stringify cb config cdata projectId input
        = Inr (stringify (JObject [(''result'', result)])))
   \<and> (\<exists>s. createMockTool_execute stringify generateText config query = Inr s)
   \<and> (\<exists>s. createMcpTool_execute stringify mcp config projectId input = Inr s)
   \<and> (\<exists>s. createComposioTool_execute stringify cb config cdata projectId input = Inr s)"
  by (simp add: createMockTool_execute_def createMcpTool_execute_def
        createComposioTool_execute_def try_catch_def then_do_def split: sum.split)

theorem tool_handlers_catch_witness:
  "createMockTool_execute json_text (\<lambda>s u. Inl ''Error: model overloaded'') mock_config ''Paris''
     = Inr ''error=Mock tool execution failed: Error: model overloaded''
   \<and> createMockTool_execute json_text (\<lambda>s u. Inr ''sunny'') mock_config ''Paris''
     = Inr ''result=sunny''
   \<and> createMcpTool_execute json_text failing_mcp mock_config ''p1'' JNull
     = Inr ''error=Tool execution failed: Error: timeout''
   \<and> createComposioTool_execute json_text working_composio mock_config gmail_data ''p1'' JNull
     = Inr ''result=sent''
   \<and> createComposioTool_execute json_text working_composio mock_config
        (gmail_data\<lparr> cd_toolkitSlug := ''slack'' \<rparr>) ''p1'' JNull
     = Inr ''error=Tool execution failed: Error: connected account id not found for project p1 and toolkit slack''"
proof -
  have mock_fails:
    "invokeMockTool (\<lambda>s u. Inl ''Error: model overloaded'') (wt_name mock_config)
       (json_text (JObject [(''query'', JString ''Paris'')]))
       (wt_description mock_config) (or_empty (wt_mockInstructions mock_config))
     = Inl ''Error: model overloaded''"
    by (simp add: invokeMockTool_def)
  have mock_works:
    "invokeMockTool (\<lambda>s u. Inr ''sunny'') (wt_name mock_config)
       (json_text (JObject [(''query'', JString ''Paris'')]))
       (wt_description mock_config) (or_empty (wt_mockInstructions mock_config))
     = Inr ''sunny''"
    by (simp add: invokeMockTool_def)
  have mcp_fails:
    "invokeMcpTool failing_mcp ''p1'' (wt_name mock_config) JNull
       (or_empty (wt_mcpServerURL mock_config)) (or_empty (wt_mcpServerName mock_config))
     = Inl ''Error: timeout''"
    by (simp add: invokeMcpTool_def failing_mcp_def then_do_def)
  have composio_works:
    "invokeComposioTool working_composio ''p1'' (wt_name mock_config) gmail_data JNull
     = Inr (JString ''sent'')"
    by (simp add: invokeComposioTool_def resolveConnectedAccount_def working_composio_def
          gmail_data_def then_do_def)
  have composio_fails:
    "invokeComposioTool working_composio ''p1'' (wt_name mock_config)
       (gmail_data\<lparr> cd_toolkitSlug := ''slack'' \<rparr>) JNull
     = Inl ''Error: connected account id not found for project p1 and toolkit slack''"
    by (simp add: invokeComposioTool_def resolveConnectedAccount_def working_composio_def
          gmail_data_def then_do_def)
  show ?thesis
    using mock_fails mock_works mcp_fails composio_works composio_fails
      tool_handlers_catch [where generateText = "\<lambda>s u. Inl ''Error: model overloaded''"
        and config = mock_config and stringify = json_text and query = "''Paris''"
        and e = "''Error: model overloaded''" and reply = "''sunny''" and mcp = failing_mcp
        and projectId = "''p1''" and input = JNull and result = "JString ''sent''"
        and cb = working_composio and cdata = gmail_data]
      tool_handlers_catch [where generateText = "\<lambda>s u. Inr ''sunny''"
        and config = mock_config and stringify = json_text and query = "''Paris''"
        and e = "''Error: timeout''" and reply = "''sunny''" and mcp = failing_mcp
        and projectId = "''p1''" and input = JNull and result = "JString ''sent''"
        and cb = working_composio and cdata = gmail_data]
      tool_handlers_catch [where generateText = "\<lambda>s u. Inr ''sunny''"
        and config = mock_config and stringify = json_text and query = "''Paris''"
        and e = "''Error: connected account id not found for project p1 and toolkit slack''"
        and reply = "''sunny''" and mcp = failing_mcp
        and projectId = "''p1''" and input = JNull and result = "JString ''sent''"
        and cb = working_composio and cdata = "gmail_data\<lparr> cd_toolkitSlug := ''slack'' \<rparr>"]
    by simp
qed

subsection \<open>Hand-off to the active agent\<close>

text \<open>
  C7. A hand-off event whose target is the active agent changes nothing but the
  record of events read: no message is emitted, nothing is appended to the
  transcript, the transfer counter, the active agent and the call stack stay as they
  are, and the stream goes on with its next event.
\<close>

theorem self_handoff_ignored:
  assumes "targetAgent = agentName st"
      and "handleEvent rt workflow cfg st
             (run_item_stream_event name (handoff_output_item targetAgent)) = (st', ctrl)"
  shows "emitted st' = emitted st \<and> turnMsgs st' = turnMsgs st
         \<and> transferCounter st' = transferCounter st
         \<and> agentName st' = agentName st \<and> stack st' = stack st
         \<and> usageTracker st' = usageTracker st \<and> uuidCalls st' = uuidCalls st
         \<and> ctrl = NextEvent"
  using assms by (auto split: if_splits)

theorem self_handoff_ignored_witness:
  "emitted (fst (handleEvent chain_runtime chain_workflow (mapConfig chain_workflow []) chain_state
             (run_item_stream_event ''handoff_occurred'' (handoff_output_item ''X'')))) = []
   \<and> turnMsgs (fst (handleEvent chain_runtime chain_workflow (mapConfig chain_workflow []) chain_state
             (run_item_stream_event ''handoff_occurred'' (handoff_output_item ''X''))))
       = [SystemMessage ''Be brief.'', UserMessage ''Hi'']
   \<and> stack (fst (handleEvent chain_runtime chain_workflow (mapConfig chain_workflow []) chain_state
             (run_item_stream_event ''handoff_occurred'' (handoff_output_item ''X'')))) = [''P'']"
  using self_handoff_ignored [of "''X''" chain_state chain_runtime chain_workflow
      "mapConfig chain_workflow []" "''handoff_occurred''"
      "fst (handleEvent chain_runtime chain_workflow (mapConfig chain_workflow []) chain_state
             (run_item_stream_event ''handoff_occurred'' (handoff_output_item ''X'')))"
      "snd (handleEvent chain_runtime chain_workflow (mapConfig chain_workflow []) chain_state
             (run_item_stream_event ''handoff_occurred'' (handoff_output_item ''X'')))"]
  by (simp add: chain_state_def)

subsection \<open>RAG with no active data source\<close>

lemma validSourceIds_none:
  assumes "\<forall>s \<in> set collection. ds_projectId s = projectId \<and> ds_active s \<longrightarrow> ds_id s \<notin> set sourceIds"
  shows "validSourceIds collection projectId sourceIds = []"
  using assms by (auto simp: validSourceIds_def filter_empty_conv)

text \<open>
  C9, as amended. When the embedding of the query and the look-up of the data sources
  succeed, and no data source of the project that is active has one of the
  configured ids, the invocation returns the empty list, whatever the vector search
  and the document look-up would do: they are not called.
\<close>

theorem rag_no_active_source:
  assumes "rb_embed rb query = Inr embedding"
      and "rb_dataSources rb = Inr collection"
      and "\<forall>s \<in> set collection.
             ds_projectId s = projectId \<and> ds_active s \<longrightarrow> ds_id s \<notin> set sourceIds"
  shows "invokeRagTool (rb\<lparr> rb_query := search, rb_findDocs := lookup \<rparr>)
           projectId query sourceIds returnType k = Inr []"
  using assms(1,2) validSourceIds_none [OF assms(3)]
  by (simp add: invokeRagTool_def then_do_def)

text \<open>
  C9 as stated fails: the query is embedded before the data sources are looked at, so
  with no data source at all an embedding call that throws makes the invocation
  throw.
\<close>

theorem rag_embed_failure_counterexample:
  "rb_dataSources rag_embed_down = Inr []
   \<and> invokeRagTool rag_embed_down ''p1'' ''refund policy'' [''s1''] chunks 3
       = Inl ''Error: embedding request failed''"
  by (simp add: invokeRagTool_def rag_embed_down_def then_do_def)

theorem rag_no_active_source_witness:
  "invokeRagTool rag_inactive ''p1'' ''refund policy'' [''s1'', ''s3''] content 3 = Inr []"
proof -
  have "\<forall>s \<in> set [\<lparr> ds_id = ''s1'', ds_projectId = ''p1'', ds_active = False \<rparr>,
                     \<lparr> ds_id = ''s2'', ds_projectId = ''p1'', ds_active = True \<rparr>].
          ds_projectId s = ''p1'' \<and> ds_active s \<longrightarrow> ds_id s \<notin> set [''s1'', ''s3'']"
    by simp
  from rag_no_active_source [where rb = rag_inactive and query = "''refund policy''"
      and embedding = "[1, 2, 3]" and projectId = "''p1''" and sourceIds = "[''s1'', ''s3'']"
      and search = "rb_query rag_inactive" and lookup = "rb_findDocs rag_inactive"
      and returnType = content and k = 3, OF _ _ this]
  show ?thesis by (simp add: rag_inactive_def)
qed

subsection \<open>Provider input\<close>

lemma convertMsgsInput_step_item:
  "convertMsgsInput_step acc m = acc @ (case provider_item m of None \<Rightarrow> [] | Some i \<Rightarrow> [i])"
  by (cases m) (simp_all add: sender_block_def)

lemma convertMsgsInput_foldl:
  "foldl convertMsgsInput_step acc msgs = acc @ List.map_filter provider_item msgs"
proof (induction msgs arbitrary: acc)
  case Nil
  show ?case by simp
next
  case (Cons m msgs)
  have "foldl convertMsgsInput_step acc (m # msgs)
          = convertMsgsInput_step acc m @ List.map_filter provider_item msgs"
    using Cons.IH [of "convertMsgsInput_step acc m"] by (simp only: foldl_Cons)
  also have "\<dots> = acc @ List.map_filter provider_item (m # msgs)"
    by (simp only: convertMsgsInput_step_item) (simp split: option.split)
  finally show ?case .
qed

text \<open>
  C10, as amended. The provider input is the transcript taken message by message, in
  order: a system and a user message pass through, an assistant message whose content
  is neither null nor the empty string becomes the text block "Sender agent: X",
  newline, "Content: Y"; a tool message, an assistant message with null content and
  an assistant message with empty content are left out.
\<close>

theorem convertMsgsInput_forwards:
  "convertMsgsInput msgs = List.map_filter provider_item msgs"
  by (simp add: convertMsgsInput_def convertMsgsInput_foldl)

text \<open>
  C10 as stated fails: an assistant message whose content is the empty string has
  non-null content and is left out all the same (the source tests the content for
  truthiness).
\<close>

theorem convertMsgsInput_empty_content_counterexample:
  "content_of (AssistantMessage [] (Some ''main'') External) \<noteq> None
   \<and> convertMsgsInput [AssistantMessage [] (Some ''main'') External] = []"
  by (simp add: convertMsgsInput_def)

theorem convertMsgsInput_forwards_witness:
  "convertMsgsInput
     [SystemMessage ''Be brief.'', UserMessage ''Hi'',
      AssistantMessageWithToolCalls
        [\<lparr> tc_id = ''c1'', tc_name = ''transfer_to_agent'', tc_arguments = ''x'' \<rparr>] (Some ''main''),
      ToolMessage ''x'' ''c1'' ''transfer_to_agent'',
      AssistantMessage ''Hello'' (Some ''helper'') External,
      AssistantMessage [] (Some ''helper'') External]
   = [input_system ''Be brief.'', input_user ''Hi'',
      input_assistant (''Sender agent: helper'' @ [CHR 0x0A] @ ''Content: Hello'')]"
  using convertMsgsInput_forwards
    [of "[SystemMessage ''Be brief.'', UserMessage ''Hi'',
      AssistantMessageWithToolCalls
        [\<lparr> tc_id = ''c1'', tc_name = ''transfer_to_agent'', tc_arguments = ''x'' \<rparr>] (Some ''main''),
      ToolMessage ''x'' ''c1'' ''transfer_to_agent'',
      AssistantMessage ''Hello'' (Some ''helper'') External,
      AssistantMessage [] (Some ''helper'') External]"]
  by simp

subsection \<open>Fields that a step leaves alone\<close>

lemma recordTransfer_fields:
  "agentName (recordTransfer rt a b st) = agentName st"
  "stack (recordTransfer rt a b st) = stack st"
  "usageTracker (recordTransfer rt a b st) = usageTracker st"
  "consumed (recordTransfer rt a b st) = consumed st"
  by (simp_all add: recordTransfer_def split: prod.split)

lemma emitMessage_fields:
  "agentName (emitMessage m st) = agentName st"
  "stack (emitMessage m st) = stack st"
  "usageTracker (emitMessage m st) = usageTracker st"
  "consumed (emitMessage m st) = consumed st"
  "turnMsgs (emitMessage m st) = turnMsgs st @ [m]"
  by (simp_all add: emitMessage_def)

lemma handleContent_fields:
  "agentName (handleContent b st c) = agentName st"
  "stack (handleContent b st c) = stack st"
  "usageTracker (handleContent b st c) = usageTracker st"
  "consumed (handleContent b st c) = consumed st"
  by (cases c; simp add: emitMessage_fields)+

lemma foldl_handleContent_fields:
  "agentName (foldl (handleContent b) st cs) = agentName st"
  "stack (foldl (handleContent b) st cs) = stack st"
  "usageTracker (foldl (handleContent b) st cs) = usageTracker st"
  "consumed (foldl (handleContent b) st cs) = consumed st"
  by (induction cs arbitrary: st; simp add: handleContent_fields)+

lemma handleOutput_fields:
  "usageTracker (handleOutput st out) = usageTracker st"
  "consumed (handleOutput st out) = consumed st"
  by (cases out; simp add: emitMessage_fields)+

lemma foldl_handleOutput_fields:
  "usageTracker (foldl handleOutput st outs) = usageTracker st"
  "consumed (foldl handleOutput st outs) = consumed st"
  by (induction outs arbitrary: st; simp add: handleOutput_fields)+

lemma handleOutput_control:
  "agentName (handleOutput st out) = agentName st"
  "stack (handleOutput st out) = stack st"
  by (cases out; simp add: emitMessage_fields)+

lemma foldl_handleOutput_control:
  "agentName (foldl handleOutput st outs) = agentName st"
  "stack (foldl handleOutput st outs) = stack st"
  by (induction outs arbitrary: st; simp add: handleOutput_control)+

lemma handleRunItem_fields:
  "usageTracker (fst (handleRunItem rt workflow cfg name item st)) = usageTracker st"
  "consumed (fst (handleRunItem rt workflow cfg name item st)) = consumed st"
  by (cases item;
      simp add: Let_def recordTransfer_fields emitMessage_fields foldl_handleContent_fields
        split: prod.split)+

subsection \<open>Hand-off and hand-back\<close>

lemma handoff_step:
  assumes "agentName st \<noteq> target"
  shows "\<exists>st1. handleEvent rt workflow cfg st
            (run_item_stream_event ''handoff_occurred'' (handoff_output_item target)) = (st1, NextEvent)
          \<and> agentName st1 = target \<and> stack st1 = stack st @ [agentName st]"
  using assms by (simp add: Let_def recordTransfer_fields)

lemma message_step_internal:
  assumes "visibility cfg (agentName st) = Some internal"
      and "stack st = below @ [caller]" and "caller \<noteq> []"
  shows "\<exists>st1. handleEvent rt workflow cfg st
            (run_item_stream_event name (message_output_item ''message'' ''completed'' contents))
              = (st1, ContinueTurnLoop)
          \<and> agentName st1 = caller \<and> stack st1 = below @ [agentName st]"
  using assms
  by (simp add: Let_def getNextAgentName_def foldl_handleContent_fields recordTransfer_fields
        split: prod.split)

lemma message_step_not_internal:
  assumes "visibility cfg (agentName st) \<noteq> Some internal"
  shows "\<exists>st1. handleEvent rt workflow cfg st
            (run_item_stream_event name (message_output_item ''message'' ''completed'' contents))
              = (st1, NextEvent)
          \<and> agentName st1 = agentName st \<and> stack st1 = stack st"
  using assms
  by (simp add: Let_def foldl_handleContent_fields)

lemma message_step_handback:
  assumes "visibility cfg (agentName st) = Some internal"
      and "stack st = below @ [caller]"
  shows "\<exists>st1. handleEvent rt workflow cfg st
            (run_item_stream_event name (message_output_item ''message'' ''completed'' contents))
              = (st1, ContinueTurnLoop)
          \<and> agentName st1 = (if caller = [] then wf_startAgent workflow else caller)
          \<and> stack st1 = below @ [agentName st]"
  using assms
  by (simp add: Let_def getNextAgentName_def foldl_handleContent_fields recordTransfer_fields
        split: prod.split)

lemma keeps_control_step:
  assumes "keeps_control (agentName st) e"
  shows "\<exists>st1. handleEvent rt workflow cfg st e = (st1, NextEvent)
          \<and> agentName st1 = agentName st \<and> stack st1 = stack st"
proof (cases e)
  case (raw_model_stream_event d)
  then show ?thesis by (cases d) (simp_all add: Let_def foldl_handleOutput_control)
next
  case (run_item_stream_event name item)
  with assms show ?thesis
    by (cases item) (auto simp: keeps_control_def emitMessage_fields split: if_splits)
next
  case other_stream_event
  then show ?thesis by simp
qed

lemma keeps_control_stream:
  assumes "\<forall>e \<in> set events. keeps_control (agentName st) e"
  shows "\<exists>st1. processEvents rt workflow cfg st events = (st1, NextEvent)
          \<and> agentName st1 = agentName st \<and> stack st1 = stack st"
  using assms
proof (induction events arbitrary: st)
  case Nil
  show ?case by simp
next
  case (Cons e events)
  from Cons.prems have "keeps_control (agentName st) e" by simp
  from keeps_control_step [OF this, of rt workflow cfg] obtain st1
    where h: "handleEvent rt workflow cfg st e = (st1, NextEvent)"
      and a: "agentName st1 = agentName st" and s: "stack st1 = stack st" by blast
  from Cons.prems a have "\<forall>e \<in> set events. keeps_control (agentName st1) e" by simp
  from Cons.IH [OF this] h a s show ?case by simp
qed

lemma processEvents_append:
  assumes "processEvents rt workflow cfg st xs = (st1, NextEvent)"
  shows "processEvents rt workflow cfg st (xs @ ys) = processEvents rt workflow cfg st1 ys"
  using assms
proof (induction xs arbitrary: st)
  case Nil
  then show ?case by simp
next
  case (Cons e xs)
  obtain s ctrl where h: "handleEvent rt workflow cfg st e = (s, ctrl)"
    by (cases "handleEvent rt workflow cfg st e")
  show ?case
  proof (cases ctrl)
    case NextEvent
    with h Cons.prems have "processEvents rt workflow cfg s xs = (st1, NextEvent)" by simp
    from Cons.IH [OF this] h NextEvent show ?thesis by simp
  next
    case ContinueTurnLoop
    with h Cons.prems show ?thesis by simp
  qed
qed

lemma handleEvent_visibility_only:
  assumes "\<forall>n. visibility cfg' n = visibility cfg n"
  shows "handleEvent rt workflow cfg' st e = handleEvent rt workflow cfg st e"
proof (cases e)
  case (raw_model_stream_event d)
  then show ?thesis by (cases d) simp_all
next
  case (run_item_stream_event name item)
  with assms show ?thesis by (cases item) simp_all
next
  case other_stream_event
  then show ?thesis by simp
qed

lemma processEvents_visibility_only:
  assumes "\<forall>n. visibility cfg' n = visibility cfg n"
  shows "processEvents rt workflow cfg' st events = processEvents rt workflow cfg st events"
  by (induction events arbitrary: st) (simp_all add: handleEvent_visibility_only [OF assms])

text \<open>
  C2, as amended. When the active agent hands off to another agent \<open>Y\<close>, it is pushed
  on the call stack and \<open>Y\<close> becomes active. Events that are neither completed
  messages nor hand-offs to another agent keep the active agent and the call stack
  as they are. When the active agent completes with a message while \<open>X\<close> is on top
  of the stack: if the active agent is internal, control returns to \<open>X\<close> (to the
  start agent when the name of \<open>X\<close> is empty), the active agent takes the place of
  \<open>X\<close> on the stack and the entries below stay, and the loop starts a new pass; if
  it is not internal, it stays active and the stack stays as it is. So for a stream
  in which \<open>X\<close> hands off to \<open>Y\<close> and \<open>Y\<close>, after any events that keep control,
  completes with a message, an internal \<open>Y\<close> hands control back to \<open>X\<close> itself. The
  first three statements hold in every state, hence also when the message comes in
  a later pass. The outcome depends on the configuration through the output
  visibilities only: the hand-off targets that an agent declares play no part.
\<close>

theorem handback_to_caller:
  "(agentName st \<noteq> Y \<longrightarrow>
      (\<exists>st1. handleEvent rt workflow cfg st
                (run_item_stream_event ''handoff_occurred'' (handoff_output_item Y)) = (st1, NextEvent)
             \<and> agentName st1 = Y \<and> stack st1 = stack st @ [agentName st]))
   \<and> ((\<forall>e \<in> set mid. keeps_control (agentName st) e) \<longrightarrow>
      (\<exists>st1. processEvents rt workflow cfg st mid = (st1, NextEvent)
             \<and> agentName st1 = agentName st \<and> stack st1 = stack st))
   \<and> (stack st = below @ [X]
       \<and> handleEvent rt workflow cfg st
           (run_item_stream_event name (message_output_item ''message'' ''completed'' contents))
         = (reached, ctrl) \<longrightarrow>
      (visibility cfg (agentName st) = Some internal \<longrightarrow>
         agentName reached = (if X = [] then wf_startAgent workflow else X)
         \<and> stack reached = below @ [agentName st] \<and> ctrl = ContinueTurnLoop)
      \<and> (visibility cfg (agentName st) \<noteq> Some internal \<longrightarrow>
         agentName reached = agentName st \<and> stack reached = stack st \<and> ctrl = NextEvent))
   \<and> (agentName st = X \<and> X \<noteq> Y \<and> (\<forall>e \<in> set mid. keeps_control Y e)
       \<and> processEvents rt workflow cfg st
           (run_item_stream_event ''handoff_occurred'' (handoff_output_item Y) # mid
            @ [run_item_stream_event name (message_output_item ''message'' ''completed'' contents)])
         = (final, outcome) \<longrightarrow>
      (visibility cfg Y = Some internal \<longrightarrow>
         agentName final = (if X = [] then wf_startAgent workflow else X)
         \<and> stack final = stack st @ [Y] \<and> outcome = ContinueTurnLoop)
      \<and> (visibility cfg Y \<noteq> Some internal \<longrightarrow>
         agentName final = Y \<and> stack final = stack st @ [X] \<and> outcome = NextEvent))
   \<and> ((\<forall>n. visibility other n = visibility cfg n) \<longrightarrow>
        processEvents rt workflow other st events = processEvents rt workflow cfg st events)"
proof -
  let ?handoff = "run_item_stream_event ''handoff_occurred'' (handoff_output_item Y)"
  let ?message = "run_item_stream_event name (message_output_item ''message'' ''completed'' contents)"
  have handoff: "agentName st \<noteq> Y \<longrightarrow>
      (\<exists>st1. handleEvent rt workflow cfg st ?handoff = (st1, NextEvent)
             \<and> agentName st1 = Y \<and> stack st1 = stack st @ [agentName st])"
    using handoff_step [of st Y rt workflow cfg] by blast
  have keeps: "(\<forall>e \<in> set mid. keeps_control (agentName st) e) \<longrightarrow>
      (\<exists>st1. processEvents rt workflow cfg st mid = (st1, NextEvent)
             \<and> agentName st1 = agentName st \<and> stack st1 = stack st)"
    using keeps_control_stream [of mid st rt workflow cfg] by blast
  have message: "stack st = below @ [X]
       \<and> handleEvent rt workflow cfg st ?message = (reached, ctrl) \<longrightarrow>
      (visibility cfg (agentName st) = Some internal \<longrightarrow>
         agentName reached = (if X = [] then wf_startAgent workflow else X)
         \<and> stack reached = below @ [agentName st] \<and> ctrl = ContinueTurnLoop)
      \<and> (visibility cfg (agentName st) \<noteq> Some internal \<longrightarrow>
         agentName reached = agentName st \<and> stack reached = stack st \<and> ctrl = NextEvent)"
  proof (intro impI, elim conjE, rule conjI; rule impI)
    assume stk: "stack st = below @ [X]"
       and h: "handleEvent rt workflow cfg st ?message = (reached, ctrl)"
    {
      assume vis: "visibility cfg (agentName st) = Some internal"
      from message_step_handback [OF vis stk, of rt workflow name contents] h
      show "agentName reached = (if X = [] then wf_startAgent workflow else X)
             \<and> stack reached = below @ [agentName st] \<and> ctrl = ContinueTurnLoop"
        by auto
    }
    {
      assume vis: "visibility cfg (agentName st) \<noteq> Some internal"
      from message_step_not_internal [OF vis, of rt workflow name contents] h
      show "agentName reached = agentName st \<and> stack reached = stack st \<and> ctrl = NextEvent"
        by auto
    }
  qed
  have stream: "agentName st = X \<and> X \<noteq> Y \<and> (\<forall>e \<in> set mid. keeps_control Y e)
       \<and> processEvents rt workflow cfg st (?handoff # mid @ [?message]) = (final, outcome) \<longrightarrow>
      (visibility cfg Y = Some internal \<longrightarrow>
         agentName final = (if X = [] then wf_startAgent workflow else X)
         \<and> stack final = stack st @ [Y] \<and> outcome = ContinueTurnLoop)
      \<and> (visibility cfg Y \<noteq> Some internal \<longrightarrow>
         agentName final = Y \<and> stack final = stack st @ [X] \<and> outcome = NextEvent)"
  proof (intro impI, elim conjE, rule conjI; rule impI)
    assume active: "agentName st = X" and other: "X \<noteq> Y"
       and quiet: "\<forall>e \<in> set mid. keeps_control Y e"
       and run: "processEvents rt workflow cfg st (?handoff # mid @ [?message]) = (final, outcome)"
    from active other have "agentName st \<noteq> Y" by simp
    from handoff_step [OF this, of rt workflow cfg] active obtain st1
      where h: "handleEvent rt workflow cfg st ?handoff = (st1, NextEvent)"
        and a1: "agentName st1 = Y" and s1: "stack st1 = stack st @ [X]" by auto
    from quiet a1 have "\<forall>e \<in> set mid. keeps_control (agentName st1) e" by simp
    from keeps_control_stream [OF this, of rt workflow cfg] a1 s1 obtain st2
      where m: "processEvents rt workflow cfg st1 mid = (st2, NextEvent)"
        and a2: "agentName st2 = Y" and s2: "stack st2 = stack st @ [X]"
      by auto
    from h run have "processEvents rt workflow cfg st1 (mid @ [?message]) = (final, outcome)"
      by simp
    with processEvents_append [OF m, of "[?message]"]
    have last_step: "processEvents rt workflow cfg st2 [?message] = (final, outcome)" by simp
    {
      assume "visibility cfg Y = Some internal"
      with a2 have "visibility cfg (agentName st2) = Some internal" by simp
      from message_step_handback [OF this s2, of rt workflow name contents] obtain st3
        where "handleEvent rt workflow cfg st2 ?message = (st3, ContinueTurnLoop)"
          and "agentName st3 = (if X = [] then wf_startAgent workflow else X)"
          and "stack st3 = stack st @ [agentName st2]" by blast
      with last_step a2
      show "agentName final = (if X = [] then wf_startAgent workflow else X)
           \<and> stack final = stack st @ [Y] \<and> outcome = ContinueTurnLoop"
        by (simp del: handleEvent.simps)
    }
    {
      assume "visibility cfg Y \<noteq> Some internal"
      with a2 have "visibility cfg (agentName st2) \<noteq> Some internal" by simp
      from message_step_not_internal [OF this, of rt workflow name contents] obtain st3
        where "handleEvent rt workflow cfg st2 ?message = (st3, NextEvent)"
          and "agentName st3 = agentName st2" and "stack st3 = stack st2" by blast
      with last_step a2 s2
      show "agentName final = Y \<and> stack final = stack st @ [X] \<and> outcome = NextEvent"
        by (simp del: handleEvent.simps)
    }
  qed
  have config: "(\<forall>n. visibility other n = visibility cfg n) \<longrightarrow>
        processEvents rt workflow other st events = processEvents rt workflow cfg st events"
    using processEvents_visibility_only [of other cfg rt workflow st events] by blast
  show ?thesis
    by (rule conjI [OF handoff conjI [OF keeps conjI [OF message conjI [OF stream config]]]])
qed

lemma chain_cfg: "agentConfig (mapConfig chain_workflow []) =
   [(''P'', \<lparr> wa_name = ''P'', wa_outputVisibility = user_facing, wa_connectedAgents = [''X''] \<rparr>),
    (''X'', \<lparr> wa_name = ''X'', wa_outputVisibility = internal, wa_connectedAgents = [''Y''] \<rparr>),
    (''Y'', \<lparr> wa_name = ''Y'', wa_outputVisibility = internal, wa_connectedAgents = [''Z''] \<rparr>),
    (''Z'', \<lparr> wa_name = ''Z'', wa_outputVisibility = internal, wa_connectedAgents = [] \<rparr>)]"
  by (simp add: mapConfig_def chain_workflow_def)

text \<open>
  C2 as stated fails: with \<open>P\<close> the caller of the internal agent \<open>X\<close>, after \<open>X\<close> hands
  off to the internal agent \<open>Y\<close> (whose one declared hand-off is \<open>Z\<close>) and \<open>Y\<close>
  completes with a message, the active agent is \<open>X\<close>, not the prior caller \<open>P\<close>.
\<close>

theorem handback_counterexample:
  "agentName chain_state = ''X''
   \<and> visibility (mapConfig chain_workflow []) ''X'' = Some internal
   \<and> stack chain_state = [''P'']
   \<and> map_of (createAgents (agentConfig (mapConfig chain_workflow []))) ''Y'' = Some [''Z'']
   \<and> agentName (fst (processEvents chain_runtime chain_workflow (mapConfig chain_workflow [])
                        chain_state chain_events)) = ''X''
   \<and> agentName (fst (processEvents chain_runtime chain_workflow (mapConfig chain_workflow [])
                        chain_state chain_events)) \<noteq> ''P''
   \<and> stack (fst (processEvents chain_runtime chain_workflow (mapConfig chain_workflow [])
                        chain_state chain_events)) = [''P'', ''Y'']"
  by (simp add: chain_cfg visibility_def createAgents_def chain_state_def chain_events_def
        Let_def getNextAgentName_def recordTransfer_def createTransferEvents_def emitMessage_def
        chain_runtime_def)

theorem handback_to_caller_witness:
  "visibility (mapConfig chain_workflow []) ''Y'' = Some internal
   \<and> agentName (fst (processEvents chain_runtime chain_workflow (mapConfig chain_workflow [])
                        chain_state chain_events_tool)) = ''X''
   \<and> stack (fst (processEvents chain_runtime chain_workflow (mapConfig chain_workflow [])
                        chain_state chain_events_tool)) = [''P'', ''Y'']
   \<and> snd (processEvents chain_runtime chain_workflow (mapConfig chain_workflow [])
                        chain_state chain_events_tool) = ContinueTurnLoop"
proof -
  let ?tool = "run_item_stream_event ''tool_output''
        (tool_call_output_item
           \<lparr> fcr_type = ''function_call_result'', fcr_status = ''completed'',
             fcr_output_type = ''text'', fcr_output_text = ''42'', fcr_callId = ''c1'',
             fcr_name = ''lookup'' \<rparr>)"
  have vis: "visibility (mapConfig chain_workflow []) ''Y'' = Some internal"
    by (simp add: chain_cfg visibility_def)
  have act: "agentName chain_state = ''X''" and st: "stack chain_state = [''P'']"
    by (simp_all add: chain_state_def)
  have quiet: "\<forall>e \<in> set [?tool]. keeps_control ''Y'' e"
    by (simp add: keeps_control_def)
  have split: "chain_events_tool
      = run_item_stream_event ''handoff_occurred'' (handoff_output_item ''Y'') # [?tool]
        @ [run_item_stream_event ''message_output_created''
            (message_output_item ''message'' ''completed'' [output_text ''done''])]"
    by (simp add: chain_events_tool_def)
  let ?r = "processEvents chain_runtime chain_workflow (mapConfig chain_workflow [])
              chain_state chain_events_tool"
  have other: "''X'' \<noteq> ''Y''" by simp
  have run: "processEvents chain_runtime chain_workflow (mapConfig chain_workflow []) chain_state
      (run_item_stream_event ''handoff_occurred'' (handoff_output_item ''Y'') # [?tool]
        @ [run_item_stream_event ''message_output_created''
            (message_output_item ''message'' ''completed'' [output_text ''done''])])
      = (fst ?r, snd ?r)"
    unfolding split [symmetric] by (rule prod.collapse [symmetric])
  note stream = handback_to_caller [where st = chain_state and X = "''X''" and Y = "''Y''"
      and mid = "[?tool]" and rt = chain_runtime and workflow = chain_workflow
      and cfg = "mapConfig chain_workflow []" and name = "''message_output_created''"
      and contents = "[output_text ''done'']" and final = "fst ?r" and outcome = "snd ?r",
      THEN conjunct2, THEN conjunct2, THEN conjunct2, THEN conjunct1]
  have "(visibility (mapConfig chain_workflow []) ''Y'' = Some internal \<longrightarrow>
           agentName (fst ?r) = (if ''X'' = [] then wf_startAgent chain_workflow else ''X'')
           \<and> stack (fst ?r) = stack chain_state @ [''Y''] \<and> snd ?r = ContinueTurnLoop)
        \<and> (visibility (mapConfig chain_workflow []) ''Y'' \<noteq> Some internal \<longrightarrow>
           agentName (fst ?r) = ''Y'' \<and> stack (fst ?r) = stack chain_state @ [''X'']
           \<and> snd ?r = NextEvent)"
    by (rule mp [OF stream]) (intro conjI act other quiet run)
  with vis have "agentName (fst ?r) = (if ''X'' = [] then wf_startAgent chain_workflow else ''X'')
           \<and> stack (fst ?r) = stack chain_state @ [''Y''] \<and> snd ?r = ContinueTurnLoop"
    by blast
  with vis st show ?thesis by simp
qed

subsection \<open>The last pass of the loop\<close>

lemma turnLoop_last_pass:
  assumes run: "turnLoop rt workflow cfg iter st = Some y"
      and step: "\<And>i s s1. I s \<Longrightarrow> iteration rt workflow cfg i s = Again s1 \<Longrightarrow> I s1"
      and init: "I st"
  shows "\<exists>i s. I s \<and> iteration rt workflow cfg i s
                      = (case snd y of None \<Rightarrow> Break (fst y) | Some e \<Rightarrow> Throw e (fst y))"
proof -
  have "(\<forall>i s s1. I s \<longrightarrow> iteration rt workflow cfg i s = Again s1 \<longrightarrow> I s1) \<longrightarrow> I st \<longrightarrow>
        (\<exists>i s. I s \<and> iteration rt workflow cfg i s
                      = (case snd y of None \<Rightarrow> Break (fst y) | Some e \<Rightarrow> Throw e (fst y)))"
  proof (rule turnLoop.raw_induct
      [where P = "\<lambda>rt workflow cfg iter st y.
         (\<forall>i s s1. I s \<longrightarrow> iteration rt workflow cfg i s = Again s1 \<longrightarrow> I s1) \<longrightarrow> I st \<longrightarrow>
        (\<exists>i s. I s \<and> iteration rt workflow cfg i s
                      = (case snd y of None \<Rightarrow> Break (fst y) | Some e \<Rightarrow> Throw e (fst y)))",
       OF _ run])
    fix loop :: "runtime \<Rightarrow> workflow \<Rightarrow> compiled \<Rightarrow> nat \<Rightarrow> loopState \<Rightarrow> (loopState \<times> error option) option"
    fix rt workflow cfg iter st y
    assume IH: "\<And>rt workflow cfg iter st y. loop rt workflow cfg iter st = Some y \<Longrightarrow>
         (\<forall>i s s1. I s \<longrightarrow> iteration rt workflow cfg i s = Again s1 \<longrightarrow> I s1) \<longrightarrow> I st \<longrightarrow>
        (\<exists>i s. I s \<and> iteration rt workflow cfg i s
                      = (case snd y of None \<Rightarrow> Break (fst y) | Some e \<Rightarrow> Throw e (fst y)))"
    assume body: "(case iteration rt workflow cfg (Suc iter) st of
        Throw e st1 \<Rightarrow> Some (st1, Some e) | Break st1 \<Rightarrow> Some (st1, None)
      | Again st1 \<Rightarrow> loop rt workflow cfg (Suc iter) st1) = Some y"
    show "(\<forall>i s s1. I s \<longrightarrow> iteration rt workflow cfg i s = Again s1 \<longrightarrow> I s1) \<longrightarrow> I st \<longrightarrow>
        (\<exists>i s. I s \<and> iteration rt workflow cfg i s
                      = (case snd y of None \<Rightarrow> Break (fst y) | Some e \<Rightarrow> Throw e (fst y)))"
    proof (intro impI)
      assume st: "\<forall>i s s1. I s \<longrightarrow> iteration rt workflow cfg i s = Again s1 \<longrightarrow> I s1" and i: "I st"
      show "\<exists>i s. I s \<and> iteration rt workflow cfg i s
                      = (case snd y of None \<Rightarrow> Break (fst y) | Some e \<Rightarrow> Throw e (fst y))"
      proof (cases "iteration rt workflow cfg (Suc iter) st")
        case (Throw e st1)
        with body have "y = (st1, Some e)" by simp
        with Throw i show ?thesis by (intro exI [of _ "Suc iter"] exI [of _ st]) simp
      next
        case (Break st1)
        with body have "y = (st1, None)" by simp
        with Break i show ?thesis by (intro exI [of _ "Suc iter"] exI [of _ st]) simp
      next
        case (Again st1)
        with body have "loop rt workflow cfg (Suc iter) st1 = Some y" by simp
        moreover from st i Again have "I st1" by blast
        ultimately show ?thesis using IH st by blast
      qed
    qed
  qed
  with step init show ?thesis by blast
qed

lemma turnLoop_exits:
  assumes "turnLoop rt workflow cfg iter st = Some (st', r)"
  shows "\<exists>i s. iteration rt workflow cfg i s
                  = (case r of None \<Rightarrow> Break st' | Some e \<Rightarrow> Throw e st')"
  using turnLoop_last_pass [of rt workflow cfg iter st "(st', r)" "\<lambda>s. True", OF assms]
  by (cases r) simp_all

lemma turnLoop_diverges:
  assumes init: "I st"
      and step: "\<And>i s. I s \<Longrightarrow> \<exists>s1. iteration rt workflow cfg i s = Again s1 \<and> I s1"
  shows "turnLoop rt workflow cfg iter st = None"
proof (rule ccontr)
  assume "turnLoop rt workflow cfg iter st \<noteq> None"
  then obtain y where run: "turnLoop rt workflow cfg iter st = Some y" by auto
  have keep: "I s1" if "I s" and "iteration rt workflow cfg i s = Again s1" for i s s1
  proof -
    from step [OF that(1), of i] obtain s2
      where "iteration rt workflow cfg i s = Again s2" and "I s2" by blast
    with that(2) show ?thesis by simp
  qed
  have "\<exists>i s. I s \<and> iteration rt workflow cfg i s
                 = (case snd y of None \<Rightarrow> Break (fst y) | Some e \<Rightarrow> Throw e (fst y))"
  proof (rule turnLoop_last_pass [where I = I, OF run])
    show "I s1" if "I s" and "iteration rt workflow cfg i s = Again s1" for i s s1
      using keep that by blast
    show "I st" by (fact init)
  qed
  then obtain i s where "I s"
    and last: "iteration rt workflow cfg i s
                 = (case snd y of None \<Rightarrow> Break (fst y) | Some e \<Rightarrow> Throw e (fst y))"
    by blast
  from step [OF \<open>I s\<close>, of i] obtain s1 where "iteration rt workflow cfg i s = Again s1" by blast
  with last show False by (cases "snd y") simp_all
qed

lemma turnLoop_passes:
  "passes rt workflow cfg n iter st = Again st1 \<Longrightarrow>
   turnLoop rt workflow cfg iter st = turnLoop rt workflow cfg (iter + n) st1"
proof (induction n arbitrary: iter st)
  case 0
  then show ?case by simp
next
  case (Suc n)
  show ?case
  proof (cases "iteration rt workflow cfg (Suc iter) st")
    case (Again s)
    with Suc.prems have "passes rt workflow cfg n (Suc iter) s = Again st1" by simp
    from Suc.IH [OF this] Again show ?thesis
      by (subst turnLoop.simps) simp
  qed (use Suc.prems in simp_all)
qed

lemma turnLoop_as_passes:
  assumes run: "turnLoop rt workflow cfg iter st = Some y"
  shows "\<exists>n. passes rt workflow cfg n iter st
               = (case snd y of None \<Rightarrow> Break (fst y) | Some e \<Rightarrow> Throw e (fst y))"
proof (rule turnLoop.raw_induct
    [where P = "\<lambda>rt workflow cfg iter st y.
       \<exists>n. passes rt workflow cfg n iter st
               = (case snd y of None \<Rightarrow> Break (fst y) | Some e \<Rightarrow> Throw e (fst y))",
     OF _ run])
  fix loop :: "runtime \<Rightarrow> workflow \<Rightarrow> compiled \<Rightarrow> nat \<Rightarrow> loopState \<Rightarrow> (loopState \<times> error option) option"
  fix rt workflow cfg iter st y
  assume IH: "\<And>rt workflow cfg iter st y. loop rt workflow cfg iter st = Some y \<Longrightarrow>
       \<exists>n. passes rt workflow cfg n iter st
               = (case snd y of None \<Rightarrow> Break (fst y) | Some e \<Rightarrow> Throw e (fst y))"
  assume body: "(case iteration rt workflow cfg (Suc iter) st of
        Throw e st1 \<Rightarrow> Some (st1, Some e) | Break st1 \<Rightarrow> Some (st1, None)
      | Again st1 \<Rightarrow> loop rt workflow cfg (Suc iter) st1) = Some y"
  show "\<exists>n. passes rt workflow cfg n iter st
               = (case snd y of None \<Rightarrow> Break (fst y) | Some e \<Rightarrow> Throw e (fst y))"
  proof (cases "iteration rt workflow cfg (Suc iter) st")
    case (Throw e st1)
    with body have "y = (st1, Some e)" by simp
    with Throw show ?thesis by (intro exI [of _ "Suc 0"]) simp
  next
    case (Break st1)
    with body have "y = (st1, None)" by simp
    with Break show ?thesis by (intro exI [of _ "Suc 0"]) simp
  next
    case (Again st1)
    with body have "loop rt workflow cfg (Suc iter) st1 = Some y" by simp
    from IH [OF this] obtain n where "passes rt workflow cfg n (Suc iter) st1
               = (case snd y of None \<Rightarrow> Break (fst y) | Some e \<Rightarrow> Throw e (fst y))" by blast
    with Again show ?thesis by (intro exI [of _ "Suc n"]) simp
  qed
qed

lemma iteration_state:
  "iteration rt workflow cfg i s = r \<Longrightarrow>
   (r = Throw AgentNotFound s \<and> map_of (createAgents (agentConfig cfg)) (agentName s) = None)
   \<or> (map_of (createAgents (agentConfig cfg)) (agentName s) \<noteq> None \<and>
       (\<exists>events failure s1 ctrl.
          provider rt i (agentName s) (convertMsgsInput (turnMsgs s)) = (events, failure)
          \<and> processEvents rt workflow cfg s events = (s1, ctrl)
          \<and> (case ctrl of
                ContinueTurnLoop \<Rightarrow> r = Again s1
              | NextEvent \<Rightarrow>
                  (case failure of
                     Some e \<Rightarrow> r = Throw (ProviderError e) s1
                   | None \<Rightarrow> r = (if turnComplete cfg s1 then Break s1 else Again s1)))))"
  by (auto simp: iteration_def split: prod.splits control.splits option.splits if_splits)

lemma iteration_result_state:
  "iteration rt workflow cfg i s = r \<Longrightarrow>
   \<exists>events. (case r of Throw e s1 \<Rightarrow> s1 | Break s1 \<Rightarrow> s1 | Again s1 \<Rightarrow> s1)
               = fst (processEvents rt workflow cfg s events)
             \<and> set events \<subseteq> set (fst (provider rt i (agentName s) (convertMsgsInput (turnMsgs s))))"
proof -
  assume h: "iteration rt workflow cfg i s = r"
  show ?thesis
  proof (cases "map_of (createAgents (agentConfig cfg)) (agentName s) = None")
    case True
    with h have "r = Throw AgentNotFound s" by (simp add: iteration_def)
    then show ?thesis by (intro exI [of _ "[]"]) simp
  next
    case False
    with h show ?thesis
      by (intro exI [of _ "fst (provider rt i (agentName s) (convertMsgsInput (turnMsgs s)))"])
         (auto simp: iteration_def split: prod.splits control.splits option.splits if_splits)
  qed
qed

subsection \<open>Usage along a stream\<close>

lemma handleEvent_consumed:
  "consumed (fst (handleEvent rt workflow cfg st e)) = consumed st @ [e]"
proof (cases e)
  case (raw_model_stream_event d)
  then show ?thesis by (cases d) (simp_all add: Let_def foldl_handleOutput_fields)
next
  case (run_item_stream_event name item)
  then show ?thesis by (simp add: handleRunItem_fields)
next
  case other_stream_event
  then show ?thesis by simp
qed

lemma usage_plus_zero:
  "usage_plus u \<lparr> u_total = 0, u_prompt = 0, u_completion = 0 \<rparr> = u"
  by (simp add: usage_plus_def)

lemma handleEvent_usage:
  "usageTracker (fst (handleEvent rt workflow cfg st e))
     = usage_plus (usageTracker st) (usage_delta e)"
proof (cases e)
  case (raw_model_stream_event d)
  then show ?thesis
    by (cases d)
       (simp_all add: Let_def foldl_handleOutput_fields UsageTracker_increment_def usage_plus_def)
next
  case (run_item_stream_event name item)
  then show ?thesis by (simp add: handleRunItem_fields usage_plus_zero)
next
  case other_stream_event
  then show ?thesis by (simp add: usage_plus_zero)
qed

lemma handleEvent_monotone:
  assumes "nonnegative_counts e"
  shows "usage_le (usageTracker st) (usageTracker (fst (handleEvent rt workflow cfg st e)))"
  using assms
  by (simp add: handleEvent_usage nonnegative_counts_def usage_le_def usage_plus_def)

lemma usage_le_trans: "usage_le a b \<Longrightarrow> usage_le b c \<Longrightarrow> usage_le a c"
  by (simp add: usage_le_def)

lemma usage_le_refl: "usage_le a a"
  by (simp add: usage_le_def)

lemma processEvents_monotone:
  assumes "\<forall>e \<in> set events. nonnegative_counts e"
  shows "usage_le (usageTracker st) (usageTracker (fst (processEvents rt workflow cfg st events)))"
  using assms
proof (induction events arbitrary: st)
  case Nil
  then show ?case by (simp add: usage_le_refl)
next
  case (Cons e events)
  obtain st1 ctrl where h: "handleEvent rt workflow cfg st e = (st1, ctrl)"
    by (cases "handleEvent rt workflow cfg st e")
  from Cons.prems handleEvent_monotone [of e st rt workflow cfg] h
  have le1: "usage_le (usageTracker st) (usageTracker st1)" by simp
  show ?case
  proof (cases ctrl)
    case NextEvent
    from Cons.prems have "\<forall>e \<in> set events. nonnegative_counts e" by simp
    from Cons.IH [OF this, of st1] le1 h NextEvent show ?thesis
      by (auto intro: usage_le_trans)
  next
    case ContinueTurnLoop
    with h le1 show ?thesis by simp
  qed
qed

lemma handleEvent_reenters:
  "snd (handleEvent rt workflow cfg st e) = ContinueTurnLoop \<longleftrightarrow> reenters cfg (agentName st) e"
proof (cases e)
  case (raw_model_stream_event d)
  then show ?thesis by (cases d) (simp_all add: reenters_def Let_def)
next
  case (run_item_stream_event name item)
  then show ?thesis
    by (cases item) (auto simp: reenters_def Let_def split: prod.splits)
next
  case other_stream_event
  then show ?thesis by (simp add: reenters_def)
qed

lemma handleEvent_agent_after:
  assumes "\<not> reenters cfg (agentName st) e"
  shows "agentName (fst (handleEvent rt workflow cfg st e)) = agent_after (agentName st) e"
proof (cases e)
  case (raw_model_stream_event d)
  then show ?thesis
    by (cases d) (simp_all add: agent_after_def Let_def foldl_handleOutput_control)
next
  case (run_item_stream_event name item)
  with assms show ?thesis
    by (cases item)
       (auto simp: reenters_def agent_after_def Let_def recordTransfer_fields emitMessage_fields
          foldl_handleContent_fields)
next
  case other_stream_event
  then show ?thesis by (simp add: agent_after_def)
qed


lemma usage_plus_assoc: "usage_plus (usage_plus a b) c = usage_plus a (usage_plus b c)"
  by (simp add: usage_plus_def)

lemma usage_sum_Cons: "usage_sum (e # es) = usage_plus (usage_delta e) (usage_sum es)"
  by (simp add: usage_sum_def usage_plus_def)

lemma usage_sum_Nil: "usage_sum [] = \<lparr> u_total = 0, u_prompt = 0, u_completion = 0 \<rparr>"
  by (simp add: usage_sum_def)

lemma usage_sum_append: "usage_sum (xs @ ys) = usage_plus (usage_sum xs) (usage_sum ys)"
  by (simp add: usage_sum_def usage_plus_def)

lemma processEvents_read:
  "usageTracker (fst (processEvents rt workflow cfg st events))
     = usage_plus (usageTracker st) (usage_sum (read_events cfg (agentName st) events))
   \<and> consumed (fst (processEvents rt workflow cfg st events))
     = consumed st @ read_events cfg (agentName st) events"
proof (induction events arbitrary: st)
  case Nil
  show ?case by (simp add: usage_sum_Nil usage_plus_zero)
next
  case (Cons e events)
  obtain st1 ctrl where h: "handleEvent rt workflow cfg st e = (st1, ctrl)"
    by (cases "handleEvent rt workflow cfg st e")
  from handleEvent_usage [of rt workflow cfg st e] h
  have u1: "usageTracker st1 = usage_plus (usageTracker st) (usage_delta e)" by simp
  from handleEvent_consumed [of rt workflow cfg st e] h
  have c1: "consumed st1 = consumed st @ [e]" by simp
  show ?case
  proof (cases "reenters cfg (agentName st) e")
    case True
    with handleEvent_reenters [of rt workflow cfg st e] h have "ctrl = ContinueTurnLoop" by simp
    with h True u1 c1 show ?thesis
      by (simp add: usage_sum_Cons usage_sum_Nil usage_plus_zero)
  next
    case False
    with handleEvent_reenters [of rt workflow cfg st e] h have next_event: "ctrl = NextEvent"
      by (cases ctrl) simp_all
    from handleEvent_agent_after [OF False, of rt workflow] h
    have a1: "agentName st1 = agent_after (agentName st) e" by simp
    from Cons.IH [of st1] h next_event False u1 c1 a1 show ?thesis
      by (simp add: usage_sum_Cons usage_plus_assoc)
  qed
qed

lemma processEvents_whole_stream:
  "snd (processEvents rt workflow cfg st events) = NextEvent \<Longrightarrow>
   read_events cfg (agentName st) events = events"
proof (induction events arbitrary: st)
  case Nil
  show ?case by simp
next
  case (Cons e events)
  obtain st1 ctrl where h: "handleEvent rt workflow cfg st e = (st1, ctrl)"
    by (cases "handleEvent rt workflow cfg st e")
  show ?case
  proof (cases ctrl)
    case ContinueTurnLoop
    with h Cons.prems show ?thesis by simp
  next
    case NextEvent
    with handleEvent_reenters [of rt workflow cfg st e] h
    have quiet: "\<not> reenters cfg (agentName st) e" by simp
    from handleEvent_agent_after [OF quiet, of rt workflow] h
    have a1: "agentName st1 = agent_after (agentName st) e" by simp
    from Cons.prems h NextEvent have "snd (processEvents rt workflow cfg st1 events) = NextEvent"
      by simp
    from Cons.IH [OF this] quiet a1 show ?thesis by simp
  qed
qed

lemma iteration_usage:
  "usageTracker (case iteration rt workflow cfg i s of Throw e s1 \<Rightarrow> s1 | Break s1 \<Rightarrow> s1 | Again s1 \<Rightarrow> s1)
     = usage_plus (usageTracker s) (usage_sum (pass_events rt cfg i s))"
proof (cases "map_of (createAgents (agentConfig cfg)) (agentName s) = None")
  case True
  then show ?thesis
    by (simp add: iteration_def pass_events_def usage_sum_Nil usage_plus_zero)
next
  case False
  obtain events failure
    where prov: "provider rt i (agentName s) (convertMsgsInput (turnMsgs s)) = (events, failure)"
    by (cases "provider rt i (agentName s) (convertMsgsInput (turnMsgs s))")
  obtain s1 ctrl where stream: "processEvents rt workflow cfg s events = (s1, ctrl)"
    by (cases "processEvents rt workflow cfg s events")
  from processEvents_read [of rt workflow cfg s events] stream
  have "usageTracker s1 = usage_plus (usageTracker s) (usage_sum (read_events cfg (agentName s) events))"
    by simp
  with False prov stream show ?thesis
    by (cases ctrl; cases failure) (auto simp: iteration_def pass_events_def)
qed

lemma passes_usage:
  assumes "passes rt workflow cfg n iter st = res" and "\<forall>s. res \<noteq> Again s"
  shows "usageTracker (case res of Throw e s1 \<Rightarrow> s1 | Break s1 \<Rightarrow> s1 | Again s1 \<Rightarrow> s1)
           = usage_plus (usageTracker st) (usage_sum (loop_events rt workflow cfg n iter st))"
  using assms
proof (induction n arbitrary: iter st)
  case 0
  then show ?case by auto
next
  case (Suc n)
  show ?case
  proof (cases "iteration rt workflow cfg (Suc iter) st")
    case (Again s1)
    with Suc.prems have "passes rt workflow cfg n (Suc iter) s1 = res" by simp
    from Suc.IH [OF this Suc.prems(2)] iteration_usage [of rt workflow cfg "Suc iter" st] Again
    show ?thesis by (simp add: usage_sum_append usage_plus_assoc)
  next
    case (Throw e s1)
    with Suc.prems iteration_usage [of rt workflow cfg "Suc iter" st] show ?thesis
      by (auto simp: usage_sum_append usage_sum_Nil usage_plus_zero)
  next
    case (Break s1)
    with Suc.prems iteration_usage [of rt workflow cfg "Suc iter" st] show ?thesis
      by (auto simp: usage_sum_append usage_sum_Nil usage_plus_zero)
  qed
qed

subsection \<open>The run of the first example\<close>

lemma solo_cfg: "agentConfig (mapConfig solo_workflow []) =
   [(''main'', \<lparr> wa_name = ''main'', wa_outputVisibility = user_facing, wa_connectedAgents = [] \<rparr>)]"
  "toolConfig (mapConfig solo_workflow []) = []"
  by (simp_all add: mapConfig_def solo_workflow_def)

lemma solo_repaired: "ensureSystemMessage solo_messages = solo_messages"
  by (simp add: ensureSystemMessage_def solo_messages_def)

lemma solo_initial:
  "initialState solo_workflow solo_messages =
     \<lparr> agentName = ''main'', stack = [],
       turnMsgs = [SystemMessage ''Be brief.'', UserMessage ''Hi''],
       usageTracker = UsageTracker_new, transferCounter = Map.empty,
       emitted = [], consumed = [], uuidCalls = 0 \<rparr>"
  by (simp add: initialState_def createAgentCallStack_def solo_messages_def getNextAgentName_def
        solo_workflow_def)

lemma solo_stream:
  "processEvents solo_runtime solo_workflow (mapConfig solo_workflow [])
     (initialState solo_workflow solo_messages) solo_events = (solo_final, NextEvent)"
  by (simp add: solo_initial solo_events_def solo_final_def visibility_def solo_cfg Let_def
        emitMessage_def UsageTracker_increment_def UsageTracker_new_def)

lemma solo_pass:
  "iteration solo_runtime solo_workflow (mapConfig solo_workflow []) (Suc 0)
     (initialState solo_workflow solo_messages) = Break solo_final"
proof -
  have agent: "map_of (createAgents (agentConfig (mapConfig solo_workflow [])))
                 (agentName (initialState solo_workflow solo_messages)) \<noteq> None"
    by (simp add: solo_cfg createAgents_def solo_initial)
  have prov: "provider solo_runtime (Suc 0) (agentName (initialState solo_workflow solo_messages))
                (convertMsgsInput (turnMsgs (initialState solo_workflow solo_messages)))
              = (solo_events, None)"
    by (simp add: solo_runtime_def)
  have complete: "turnComplete (mapConfig solo_workflow []) solo_final"
    by (simp add: turnComplete_def visibility_def solo_cfg solo_final_def)
  show ?thesis
    using agent by (simp add: iteration_def prov solo_stream complete)
qed

lemma solo_loop:
  "turnLoop solo_runtime solo_workflow (mapConfig solo_workflow []) 0
     (initialState solo_workflow solo_messages) = Some (solo_final, None)"
  by (subst turnLoop.simps) (simp add: solo_pass)

lemma solo_response:
  "streamResponse solo_runtime solo_workflow [] solo_messages
     = Some ([MessageEvent (AssistantMessage ''Hello!'' (Some ''main'') External),
              UsageEvent \<lparr> u_total = 30, u_prompt = 20, u_completion = 10 \<rparr>], None)"
proof -
  have "length solo_messages = 2"
    by (simp add: solo_messages_def)
  then show ?thesis
    by (simp add: streamResponse_def solo_repaired solo_cfg solo_loop Let_def)
       (simp add: solo_final_def)
qed

subsection \<open>The run of the two agents that hand control to each other\<close>

lemma pingpong_cfg: "agentConfig (mapConfig pingpong_workflow []) =
   [(''A'', \<lparr> wa_name = ''A'', wa_outputVisibility = user_facing, wa_connectedAgents = [''B''] \<rparr>),
    (''B'', \<lparr> wa_name = ''B'', wa_outputVisibility = internal, wa_connectedAgents = [] \<rparr>)]"
  "toolConfig (mapConfig pingpong_workflow []) = []"
  by (simp_all add: mapConfig_def pingpong_workflow_def)

lemma pingpong_pass:
  assumes active: "agentName s = ''A''"
  shows "\<exists>s2. iteration pingpong_runtime pingpong_workflow (mapConfig pingpong_workflow []) i s
                = Again s2
              \<and> agentName s2 = ''A''"
proof -
  let ?cfg = "mapConfig pingpong_workflow []"
  have agent: "map_of (createAgents (agentConfig ?cfg)) (agentName s) \<noteq> None"
    using active by (simp add: pingpong_cfg createAgents_def)
  have prov: "provider pingpong_runtime i (agentName s) (convertMsgsInput (turnMsgs s))
               = (pingpong_events, None)"
    by (simp add: pingpong_runtime_def)
  from active have "agentName s \<noteq> ''B''" by simp
  from handoff_step [OF this, of pingpong_runtime pingpong_workflow ?cfg] active
  obtain s1 where first: "handleEvent pingpong_runtime pingpong_workflow ?cfg s
            (run_item_stream_event ''handoff_occurred'' (handoff_output_item ''B'')) = (s1, NextEvent)"
    and b: "agentName s1 = ''B''" and stk: "stack s1 = stack s @ [''A'']" by auto
  from b have vis: "visibility ?cfg (agentName s1) = Some internal"
    by (simp add: visibility_def pingpong_cfg)
  have named: "''A'' \<noteq> []" by simp
  from message_step_internal [OF vis stk named, of pingpong_runtime pingpong_workflow
      "''message_output_created''" "[output_text ''done'']"]
  obtain s2 where second: "handleEvent pingpong_runtime pingpong_workflow ?cfg s1
            (run_item_stream_event ''message_output_created''
               (message_output_item ''message'' ''completed'' [output_text ''done'']))
              = (s2, ContinueTurnLoop)"
    and a: "agentName s2 = ''A''" by auto
  from first second
  have "processEvents pingpong_runtime pingpong_workflow ?cfg s pingpong_events
          = (s2, ContinueTurnLoop)"
    by (simp add: pingpong_events_def)
  with agent have "iteration pingpong_runtime pingpong_workflow ?cfg i s = Again s2"
    by (simp add: iteration_def prov)
  with a show ?thesis by blast
qed

lemma pingpong_passes:
  assumes "agentName s = ''A''"
  shows "\<exists>s1. passes pingpong_runtime pingpong_workflow (mapConfig pingpong_workflow []) n i s
                = Again s1
              \<and> agentName s1 = ''A''"
  using assms
proof (induction n arbitrary: i s)
  case 0
  then show ?case by simp
next
  case (Suc n)
  from pingpong_pass [OF Suc.prems, of "Suc i"] obtain s1
    where pass: "iteration pingpong_runtime pingpong_workflow (mapConfig pingpong_workflow [])
                   (Suc i) s = Again s1"
      and "agentName s1 = ''A''" by blast
  from Suc.IH [OF this(2), of "Suc i"] pass show ?case by simp
qed

lemma pingpong_initial:
  "agentName (initialState pingpong_workflow pingpong_messages) = ''A''"
  by (simp add: initialState_def createAgentCallStack_def pingpong_messages_def
        getNextAgentName_def pingpong_workflow_def)

lemma pingpong_loop:
  "turnLoop pingpong_runtime pingpong_workflow (mapConfig pingpong_workflow []) 0
     (initialState pingpong_workflow pingpong_messages) = None"
  by (rule turnLoop_diverges [where I = "\<lambda>s. agentName s = ''A''"])
     (simp_all add: pingpong_initial pingpong_pass)

lemma pingpong_response:
  "streamResponse pingpong_runtime pingpong_workflow [] pingpong_messages = None"
proof -
  have "ensureSystemMessage pingpong_messages = pingpong_messages"
    by (simp add: ensureSystemMessage_def pingpong_messages_def)
  moreover have "length pingpong_messages = 2"
    by (simp add: pingpong_messages_def)
  ultimately show ?thesis
    by (simp add: streamResponse_def pingpong_cfg pingpong_loop Let_def)
qed

subsection \<open>The run with a completed response after a re-entry\<close>

lemma reentry_first_pass:
  assumes active: "agentName s = ''A''"
  shows "\<exists>s2. iteration reentry_runtime pingpong_workflow (mapConfig pingpong_workflow []) (Suc 0) s
                = Again s2
              \<and> agentName s2 = ''A'' \<and> usageTracker s2 = usageTracker s"
proof -
  let ?cfg = "mapConfig pingpong_workflow []"
  let ?message = "run_item_stream_event ''message_output_created''
               (message_output_item ''message'' ''completed'' [output_text ''done''])"
  have agent: "map_of (createAgents (agentConfig ?cfg)) (agentName s) \<noteq> None"
    using active by (simp add: pingpong_cfg createAgents_def)
  have prov: "provider reentry_runtime (Suc 0) (agentName s) (convertMsgsInput (turnMsgs s))
               = (reentry_stream_first, None)"
    by (simp add: reentry_runtime_def)
  from active have "agentName s \<noteq> ''B''" by simp
  from handoff_step [OF this, of reentry_runtime pingpong_workflow ?cfg] active
  obtain s1 where first: "handleEvent reentry_runtime pingpong_workflow ?cfg s
            (run_item_stream_event ''handoff_occurred'' (handoff_output_item ''B'')) = (s1, NextEvent)"
    and b: "agentName s1 = ''B''" and stk: "stack s1 = stack s @ [''A'']" by auto
  from b have vis: "visibility ?cfg (agentName s1) = Some internal"
    by (simp add: visibility_def pingpong_cfg)
  have named: "''A'' \<noteq> []" by simp
  from message_step_internal [OF vis stk named, of reentry_runtime pingpong_workflow
      "''message_output_created''" "[output_text ''done'']"]
  obtain s2 where second: "handleEvent reentry_runtime pingpong_workflow ?cfg s1 ?message
              = (s2, ContinueTurnLoop)"
    and a: "agentName s2 = ''A''" by auto
  from first second
  have "processEvents reentry_runtime pingpong_workflow ?cfg s reentry_stream_first
          = (s2, ContinueTurnLoop)"
    by (simp add: reentry_stream_first_def del: handleEvent.simps)
  with agent have pass: "iteration reentry_runtime pingpong_workflow ?cfg (Suc 0) s = Again s2"
    by (simp add: iteration_def prov)
  have "read_events ?cfg ''A'' reentry_stream_first
          = [run_item_stream_event ''handoff_occurred'' (handoff_output_item ''B''), ?message]"
    by (simp add: reentry_stream_first_def reenters_def agent_after_def visibility_def pingpong_cfg)
  with agent active prov
  have "usage_sum (pass_events reentry_runtime ?cfg (Suc 0) s)
          = \<lparr> u_total = 0, u_prompt = 0, u_completion = 0 \<rparr>"
    by (simp add: pass_events_def usage_sum_def)
  with iteration_usage [of reentry_runtime pingpong_workflow ?cfg "Suc 0" s] pass
  have "usageTracker s2 = usageTracker s" by (simp add: usage_plus_zero)
  with pass a show ?thesis by blast
qed

lemma reentry_second_pass:
  assumes active: "agentName s = ''A''"
  shows "\<exists>s3. iteration reentry_runtime pingpong_workflow (mapConfig pingpong_workflow [])
                 (Suc (Suc 0)) s = Break s3
              \<and> usageTracker s3
                  = usage_plus (usageTracker s) \<lparr> u_total = 30, u_prompt = 20, u_completion = 10 \<rparr>"
proof -
  let ?cfg = "mapConfig pingpong_workflow []"
  have agent: "map_of (createAgents (agentConfig ?cfg)) (agentName s) \<noteq> None"
    using active by (simp add: pingpong_cfg createAgents_def)
  have prov: "provider reentry_runtime (Suc (Suc 0)) (agentName s) (convertMsgsInput (turnMsgs s))
               = (reentry_stream_second, None)"
    by (simp add: reentry_runtime_def)
  obtain s3 ctrl where stream: "processEvents reentry_runtime pingpong_workflow ?cfg s
                                  reentry_stream_second = (s3, ctrl)"
    by (cases "processEvents reentry_runtime pingpong_workflow ?cfg s reentry_stream_second")
  from stream active have ctrl: "ctrl = NextEvent"
    and fin: "agentName s3 = ''A''"
      "turnMsgs s3 = turnMsgs s @ [AssistantMessage ''Hello!'' (Some ''A'') External]"
    by (auto simp: reentry_stream_second_def Let_def visibility_def pingpong_cfg emitMessage_def)
  then have complete: "turnComplete ?cfg s3"
    by (simp add: turnComplete_def visibility_def pingpong_cfg)
  from agent stream ctrl complete
  have pass: "iteration reentry_runtime pingpong_workflow ?cfg (Suc (Suc 0)) s = Break s3"
    by (simp add: iteration_def prov)
  have "read_events ?cfg ''A'' reentry_stream_second = reentry_stream_second"
    by (simp add: reentry_stream_second_def reenters_def agent_after_def visibility_def pingpong_cfg)
  with agent active prov
  have "usage_sum (pass_events reentry_runtime ?cfg (Suc (Suc 0)) s)
          = \<lparr> u_total = 30, u_prompt = 20, u_completion = 10 \<rparr>"
    by (simp add: pass_events_def usage_sum_def reentry_stream_second_def)
  with iteration_usage [of reentry_runtime pingpong_workflow ?cfg "Suc (Suc 0)" s] pass
  have "usageTracker s3
          = usage_plus (usageTracker s) \<lparr> u_total = 30, u_prompt = 20, u_completion = 10 \<rparr>"
    by simp
  with pass show ?thesis by blast
qed

lemma reentry_response:
  "last_event (streamResponse reentry_runtime pingpong_workflow [] pingpong_messages)
     = Some (UsageEvent \<lparr> u_total = 30, u_prompt = 20, u_completion = 10 \<rparr>)"
proof -
  let ?cfg = "mapConfig pingpong_workflow []"
  let ?init = "initialState pingpong_workflow pingpong_messages"
  have zero: "usageTracker ?init = \<lparr> u_total = 0, u_prompt = 0, u_completion = 0 \<rparr>"
    by (simp add: initialState_def UsageTracker_new_def split: prod.split)
  from reentry_first_pass [OF pingpong_initial] obtain s2
    where p1: "iteration reentry_runtime pingpong_workflow ?cfg (Suc 0) ?init = Again s2"
      and a2: "agentName s2 = ''A''" and u2: "usageTracker s2 = usageTracker ?init" by blast
  from reentry_second_pass [OF a2] obtain s3
    where p2: "iteration reentry_runtime pingpong_workflow ?cfg (Suc (Suc 0)) s2 = Break s3"
      and u3: "usageTracker s3
                 = usage_plus (usageTracker s2) \<lparr> u_total = 30, u_prompt = 20, u_completion = 10 \<rparr>"
    by blast
  have "turnLoop reentry_runtime pingpong_workflow ?cfg (Suc 0) s2 = Some (s3, None)"
    by (subst turnLoop.simps) (simp add: p2)
  with p1 have loop: "turnLoop reentry_runtime pingpong_workflow ?cfg 0 ?init = Some (s3, None)"
    by (subst turnLoop.simps) simp
  from u2 u3 zero
  have usage: "usageTracker s3 = \<lparr> u_total = 30, u_prompt = 20, u_completion = 10 \<rparr>"
    by (simp add: usage_plus_def)
  have "ensureSystemMessage pingpong_messages = pingpong_messages"
    by (simp add: ensureSystemMessage_def pingpong_messages_def)
  moreover have "length pingpong_messages = 2"
    by (simp add: pingpong_messages_def)
  ultimately have "streamResponse reentry_runtime pingpong_workflow [] pingpong_messages
      = Some (emitted s3 @ [UsageEvent (usageTracker s3)], None)"
    by (simp add: streamResponse_def pingpong_cfg loop Let_def)
  with usage show ?thesis by simp
qed

subsection \<open>Completion of a turn\<close>

text \<open>
  C1. The turn loop ends without an exception only at the end of a provider stream,
  in a state where the active agent is configured as user-facing and the last
  message of the transcript is an assistant message with non-null content whose
  agent name is the active agent. And at the end of every stream (the active agent
  exists, the stream ends without an exception and without re-entry) the loop ends
  in that case and in no other: otherwise it goes on with its next pass from the
  state reached, where the active agent is resolved and invoked again.
\<close>

theorem turn_completion:
  "(turnLoop rt workflow cfg iter st = Some (st', None) \<longrightarrow>
      visibility cfg (agentName st') = Some user_facing
      \<and> turnMsgs st' \<noteq> []
      \<and> role_of (last (turnMsgs st')) = assistant
      \<and> content_of (last (turnMsgs st')) \<noteq> None
      \<and> agentName_of (last (turnMsgs st')) = Some (agentName st')
      \<and> (\<exists>i s events.
            provider rt i (agentName s) (convertMsgsInput (turnMsgs s)) = (events, None)
            \<and> processEvents rt workflow cfg s events = (st', NextEvent)))
   \<and> (map_of (createAgents (agentConfig cfg)) (agentName st) \<noteq> None
       \<and> provider rt (Suc iter) (agentName st) (convertMsgsInput (turnMsgs st)) = (events, None)
       \<and> processEvents rt workflow cfg st events = (reached, NextEvent) \<longrightarrow>
       turnLoop rt workflow cfg iter st
         = (if visibility cfg (agentName reached) = Some user_facing
               \<and> turnMsgs reached \<noteq> []
               \<and> role_of (last (turnMsgs reached)) = assistant
               \<and> content_of (last (turnMsgs reached)) \<noteq> None
               \<and> agentName_of (last (turnMsgs reached)) = Some (agentName reached)
            then Some (reached, None)
            else turnLoop rt workflow cfg (Suc iter) reached))"
proof (intro conjI impI)
  assume run: "turnLoop rt workflow cfg iter st = Some (st', None)"
  from turnLoop_exits [OF run] obtain i s
    where pass: "iteration rt workflow cfg i s = Break st'" by auto
  from iteration_state [OF pass]
  obtain events failure s1 ctrl
    where prov: "provider rt i (agentName s) (convertMsgsInput (turnMsgs s)) = (events, failure)"
      and stream: "processEvents rt workflow cfg s events = (s1, ctrl)"
      and res: "case ctrl of
                  ContinueTurnLoop \<Rightarrow> Break st' = Again s1
                | NextEvent \<Rightarrow>
                    (case failure of
                       Some e \<Rightarrow> Break st' = Throw (ProviderError e) s1
                     | None \<Rightarrow> Break st' = (if turnComplete cfg s1 then Break s1 else Again s1))"
    by auto
  from res have ctrl: "ctrl = NextEvent" by (cases ctrl) simp_all
  with res have failure: "failure = None" by (cases failure) simp_all
  with res ctrl have "turnComplete cfg s1 \<and> s1 = st'" by (simp split: if_splits)
  then have complete: "turnComplete cfg st'" and same: "s1 = st'" by blast+
  from complete show "visibility cfg (agentName st') = Some user_facing"
    and "turnMsgs st' \<noteq> []"
    and "role_of (last (turnMsgs st')) = assistant"
    and "content_of (last (turnMsgs st')) \<noteq> None"
    and "agentName_of (last (turnMsgs st')) = Some (agentName st')"
    by (simp_all add: turnComplete_def)
  from prov stream ctrl failure same
  show "\<exists>i s events.
            provider rt i (agentName s) (convertMsgsInput (turnMsgs s)) = (events, None)
            \<and> processEvents rt workflow cfg s events = (st', NextEvent)"
    by blast
next
  assume "map_of (createAgents (agentConfig cfg)) (agentName st) \<noteq> None
       \<and> provider rt (Suc iter) (agentName st) (convertMsgsInput (turnMsgs st)) = (events, None)
       \<and> processEvents rt workflow cfg st events = (reached, NextEvent)"
  then have "iteration rt workflow cfg (Suc iter) st
              = (if turnComplete cfg reached then Break reached else Again reached)"
    by (simp add: iteration_def)
  then have "turnLoop rt workflow cfg iter st
         = (if turnComplete cfg reached then Some (reached, None)
            else turnLoop rt workflow cfg (Suc iter) reached)"
    by (subst turnLoop.simps) simp
  then show "turnLoop rt workflow cfg iter st
         = (if visibility cfg (agentName reached) = Some user_facing
               \<and> turnMsgs reached \<noteq> []
               \<and> role_of (last (turnMsgs reached)) = assistant
               \<and> content_of (last (turnMsgs reached)) \<noteq> None
               \<and> agentName_of (last (turnMsgs reached)) = Some (agentName reached)
            then Some (reached, None)
            else turnLoop rt workflow cfg (Suc iter) reached)"
    by (simp only: turnComplete_def)
qed

theorem turn_completion_witness:
  "turnLoop solo_runtime solo_workflow (mapConfig solo_workflow []) 0
     (initialState solo_workflow solo_messages) = Some (solo_final, None)
   \<and> visibility (mapConfig solo_workflow []) (agentName solo_final) = Some user_facing
   \<and> last (turnMsgs solo_final) = AssistantMessage ''Hello!'' (Some ''main'') External"
proof -
  have agent: "map_of (createAgents (agentConfig (mapConfig solo_workflow [])))
                 (agentName (initialState solo_workflow solo_messages)) \<noteq> None"
    by (simp add: solo_cfg createAgents_def solo_initial)
  have prov: "provider solo_runtime (Suc 0) (agentName (initialState solo_workflow solo_messages))
                (convertMsgsInput (turnMsgs (initialState solo_workflow solo_messages)))
              = (solo_events, None)"
    by (simp add: solo_runtime_def)
  have fin: "visibility (mapConfig solo_workflow []) (agentName solo_final) = Some user_facing"
    "turnMsgs solo_final \<noteq> []"
    "last (turnMsgs solo_final) = AssistantMessage ''Hello!'' (Some ''main'') External"
    "agentName solo_final = ''main''"
    by (simp_all add: visibility_def solo_cfg solo_final_def)
  from turn_completion [where rt = solo_runtime and workflow = solo_workflow
      and cfg = "mapConfig solo_workflow []" and iter = 0
      and st = "initialState solo_workflow solo_messages" and events = solo_events
      and reached = solo_final]
    agent prov solo_stream fin
  show ?thesis by simp
qed

subsection \<open>No bound on the number of passes\<close>

text \<open>
  C5. The loop ends only by the completion test or by an exception (the active agent
  is unknown, or the provider raises). Nothing bounds the number of passes: for the
  workflow in which the user-facing agent hands off to an internal agent in every
  run and the message of the internal agent hands control back, the loop is still
  running after any number \<open>n\<close> of passes, and \<^verbatim>\<open>streamResponse\<close> never returns.
\<close>

theorem loop_unbounded:
  "(turnLoop rt workflow cfg iter st = Some (st', r) \<longrightarrow>
      (r = None \<and> turnComplete cfg st')
      \<or> r = Some AgentNotFound
      \<or> (\<exists>e. r = Some (ProviderError e)))
   \<and> (\<forall>n. \<exists>s. passes pingpong_runtime pingpong_workflow (mapConfig pingpong_workflow []) n 0
                   (initialState pingpong_workflow pingpong_messages) = Again s)
   \<and> streamResponse pingpong_runtime pingpong_workflow [] pingpong_messages = None"
proof (intro conjI impI allI)
  assume run: "turnLoop rt workflow cfg iter st = Some (st', r)"
  from turnLoop_exits [OF run] obtain i s
    where pass: "iteration rt workflow cfg i s = (case r of None \<Rightarrow> Break st' | Some e \<Rightarrow> Throw e st')"
    by auto
  show "(r = None \<and> turnComplete cfg st') \<or> r = Some AgentNotFound
        \<or> (\<exists>e. r = Some (ProviderError e))"
  proof (cases r)
    case None
    with pass have "iteration rt workflow cfg i s = Break st'" by simp
    then have "turnComplete cfg st'"
      by (auto simp: iteration_def split: prod.splits control.splits option.splits if_splits)
    with None show ?thesis by simp
  next
    case (Some e)
    with pass have "iteration rt workflow cfg i s = Throw e st'" by simp
    then have "e = AgentNotFound \<or> (\<exists>x. e = ProviderError x)"
      by (auto simp: iteration_def split: prod.splits control.splits option.splits if_splits)
    with Some show ?thesis by auto
  qed
next
  fix n
  from pingpong_passes [of "initialState pingpong_workflow pingpong_messages" n 0]
  show "\<exists>s. passes pingpong_runtime pingpong_workflow (mapConfig pingpong_workflow []) n 0
                   (initialState pingpong_workflow pingpong_messages) = Again s"
    by (auto simp: pingpong_initial)
next
  show "streamResponse pingpong_runtime pingpong_workflow [] pingpong_messages = None"
    by (fact pingpong_response)
qed

theorem loop_unbounded_witness:
  "turnLoop solo_runtime solo_workflow (mapConfig solo_workflow []) 0
     (initialState solo_workflow solo_messages) = Some (solo_final, None)
   \<and> turnComplete (mapConfig solo_workflow []) solo_final
   \<and> (\<exists>s. passes pingpong_runtime pingpong_workflow (mapConfig pingpong_workflow []) 1000 0
                   (initialState pingpong_workflow pingpong_messages) = Again s)"
  using loop_unbounded [of solo_runtime solo_workflow "mapConfig solo_workflow []" 0
      "initialState solo_workflow solo_messages" solo_final None] solo_loop
  by simp

subsection \<open>Usage accounting\<close>

text \<open>
  C8, as amended. Every provider event that the loop reads changes the usage totals
  by its delta: the usage block of a completed response, added once, and nothing
  for any other event. With nonnegative token counts the totals never decrease,
  from one event to the next and from any state of the loop to the state in which
  it ends. Of a stream the loop reads the events up to and including the first
  completed message of an internal active agent, and the whole stream when there
  is none and the stream ends; the totals after the stream are the totals before it
  plus the deltas of the events read. When the loop ends normally after \<open>n\<close>
  passes, the usage event emitted last holds the componentwise sum of the deltas of
  the events read in these passes.
\<close>

theorem usage_accounting:
  "usageTracker (fst (handleEvent rt workflow cfg st e))
     = usage_plus (usageTracker st) (usage_delta e)
   \<and> (nonnegative_counts e \<longrightarrow>
        usage_le (usageTracker st) (usageTracker (fst (handleEvent rt workflow cfg st e))))
   \<and> usageTracker (fst (processEvents rt workflow cfg st events))
       = usage_plus (usageTracker st) (usage_sum (read_events cfg (agentName st) events))
   \<and> consumed (fst (processEvents rt workflow cfg st events))
       = consumed st @ read_events cfg (agentName st) events
   \<and> (snd (processEvents rt workflow cfg st events) = NextEvent \<longrightarrow>
        read_events cfg (agentName st) events = events)
   \<and> ((\<forall>i a inputs. \<forall>x \<in> set (fst (provider rt i a inputs)). nonnegative_counts x)
        \<and> turnLoop rt workflow cfg iter st = Some (reached, r) \<longrightarrow>
        usage_le (usageTracker st) (usageTracker reached))
   \<and> (\<not> (length (ensureSystemMessage messages) = 1
            \<and> role_of (hd (ensureSystemMessage messages)) = system)
        \<and> streamResponse rt workflow projectTools messages = Some (out, None) \<longrightarrow>
        (\<exists>n final.
           passes rt workflow (mapConfig workflow projectTools) n 0
             (initialState workflow (ensureSystemMessage messages)) = Break final
           \<and> out = emitted final
                 @ [UsageEvent
                      (usage_sum
                         (loop_events rt workflow (mapConfig workflow projectTools) n 0
                            (initialState workflow (ensureSystemMessage messages))))]))"
proof -
  have event: "usageTracker (fst (handleEvent rt workflow cfg st e))
                 = usage_plus (usageTracker st) (usage_delta e)"
    by (fact handleEvent_usage)
  have event_mono: "nonnegative_counts e \<longrightarrow>
        usage_le (usageTracker st) (usageTracker (fst (handleEvent rt workflow cfg st e)))"
    using handleEvent_monotone [of e st rt workflow cfg] by blast
  have stream: "usageTracker (fst (processEvents rt workflow cfg st events))
       = usage_plus (usageTracker st) (usage_sum (read_events cfg (agentName st) events))"
    and history: "consumed (fst (processEvents rt workflow cfg st events))
       = consumed st @ read_events cfg (agentName st) events"
    using processEvents_read [of rt workflow cfg st events] by blast+
  have whole: "snd (processEvents rt workflow cfg st events) = NextEvent \<longrightarrow>
        read_events cfg (agentName st) events = events"
    using processEvents_whole_stream [of rt workflow cfg st events] by blast
  have loop_mono: "(\<forall>i a inputs. \<forall>x \<in> set (fst (provider rt i a inputs)). nonnegative_counts x)
        \<and> turnLoop rt workflow cfg iter st = Some (reached, r) \<longrightarrow>
        usage_le (usageTracker st) (usageTracker reached)"
  proof (intro impI, elim conjE)
    assume all: "\<forall>i a inputs. \<forall>x \<in> set (fst (provider rt i a inputs)). nonnegative_counts x"
       and run: "turnLoop rt workflow cfg iter st = Some (reached, r)"
    have grow: "usage_le (usageTracker s)
                  (usageTracker (case res of Throw e s1 \<Rightarrow> s1 | Break s1 \<Rightarrow> s1 | Again s1 \<Rightarrow> s1))"
      if "iteration rt workflow cfg i s = res" for i s res
    proof -
      from iteration_result_state [OF that] obtain evs
        where same: "(case res of Throw e s1 \<Rightarrow> s1 | Break s1 \<Rightarrow> s1 | Again s1 \<Rightarrow> s1)
                       = fst (processEvents rt workflow cfg s evs)"
          and sub: "set evs \<subseteq> set (fst (provider rt i (agentName s) (convertMsgsInput (turnMsgs s))))"
        by blast
      from sub all have "\<forall>x \<in> set evs. nonnegative_counts x" by blast
      from processEvents_monotone [OF this, of s rt workflow cfg] same show ?thesis by simp
    qed
    have "\<exists>i s. usage_le (usageTracker st) (usageTracker s)
             \<and> iteration rt workflow cfg i s
                  = (case snd (reached, r) of None \<Rightarrow> Break (fst (reached, r))
                     | Some e \<Rightarrow> Throw e (fst (reached, r)))"
    proof (rule turnLoop_last_pass [where I = "\<lambda>s. usage_le (usageTracker st) (usageTracker s)", OF run])
      show "usage_le (usageTracker st) (usageTracker s1)"
        if "usage_le (usageTracker st) (usageTracker s)"
          and "iteration rt workflow cfg i s = Again s1" for i s s1
        using grow [OF that(2)] that(1) by (auto intro: usage_le_trans)
      show "usage_le (usageTracker st) (usageTracker st)" by (rule usage_le_refl)
    qed
    then obtain i s where le: "usage_le (usageTracker st) (usageTracker s)"
      and pass: "iteration rt workflow cfg i s
                   = (case r of None \<Rightarrow> Break reached | Some e \<Rightarrow> Throw e reached)"
      by (cases r) auto
    from grow [OF pass] have "usage_le (usageTracker s) (usageTracker reached)"
      by (cases r) simp_all
    with le show "usage_le (usageTracker st) (usageTracker reached)"
      by (rule usage_le_trans)
  qed
  have total: "\<not> (length (ensureSystemMessage messages) = 1
            \<and> role_of (hd (ensureSystemMessage messages)) = system)
        \<and> streamResponse rt workflow projectTools messages = Some (out, None) \<longrightarrow>
        (\<exists>n final.
           passes rt workflow (mapConfig workflow projectTools) n 0
             (initialState workflow (ensureSystemMessage messages)) = Break final
           \<and> out = emitted final
                 @ [UsageEvent
                      (usage_sum
                         (loop_events rt workflow (mapConfig workflow projectTools) n 0
                            (initialState workflow (ensureSystemMessage messages))))])"
  proof (intro impI)
    let ?cfg = "mapConfig workflow projectTools"
    let ?init = "initialState workflow (ensureSystemMessage messages)"
    assume a: "\<not> (length (ensureSystemMessage messages) = 1
            \<and> role_of (hd (ensureSystemMessage messages)) = system)
        \<and> streamResponse rt workflow projectTools messages = Some (out, None)"
    then obtain y where run: "turnLoop rt workflow ?cfg 0 ?init = Some y"
      and out: "finish y = (out, None)"
      by (auto simp: streamResponse_def Let_def split: sum.splits if_splits)
    obtain final r where y: "y = (final, r)" by (cases y)
    with out have r: "r = None" by (cases r) simp_all
    with out y have out_eq: "out = emitted final @ [UsageEvent (usageTracker final)]" by simp
    from turnLoop_as_passes [OF run] y r obtain n
      where count: "passes rt workflow ?cfg n 0 ?init = Break final" by auto
    have zero: "usageTracker ?init = \<lparr> u_total = 0, u_prompt = 0, u_completion = 0 \<rparr>"
      by (simp add: initialState_def UsageTracker_new_def split: prod.split)
    have "\<forall>s. Break final \<noteq> Again s" by simp
    from passes_usage [OF count this] zero
    have "usageTracker final = usage_sum (loop_events rt workflow ?cfg n 0 ?init)"
      by (simp add: usage_plus_def usage_sum_def)
    with count out_eq
    show "\<exists>n final.
           passes rt workflow ?cfg n 0 ?init = Break final
           \<and> out = emitted final
                 @ [UsageEvent (usage_sum (loop_events rt workflow ?cfg n 0 ?init))]"
      by blast
  qed
  show ?thesis
    by (rule conjI [OF event conjI [OF event_mono conjI [OF stream conjI [OF history
          conjI [OF whole conjI [OF loop_mono total]]]]]])
qed

text \<open>
  C8 as stated fails: a completed response that follows the message of an internal
  agent in the same stream is discarded with the rest of the stream. In this
  invocation the streams of the provider hold completed responses with 37 tokens in
  total, and the final usage event reports 30.
\<close>

theorem usage_after_reentry_counterexample:
  "last_event (streamResponse reentry_runtime pingpong_workflow [] pingpong_messages)
     = Some (UsageEvent \<lparr> u_total = 30, u_prompt = 20, u_completion = 10 \<rparr>)
   \<and> usage_sum (reentry_stream_first @ reentry_stream_second)
     = \<lparr> u_total = 37, u_prompt = 25, u_completion = 12 \<rparr>"
  by (simp add: reentry_response)
     (simp add: usage_sum_def reentry_stream_first_def reentry_stream_second_def)

theorem usage_accounting_witness:
  "streamResponse solo_runtime solo_workflow [] solo_messages
     = Some ([MessageEvent (AssistantMessage ''Hello!'' (Some ''main'') External),
              UsageEvent \<lparr> u_total = 30, u_prompt = 20, u_completion = 10 \<rparr>], None)
   \<and> (\<exists>n. usage_sum (loop_events solo_runtime solo_workflow (mapConfig solo_workflow []) n 0
                       (initialState solo_workflow solo_messages))
            = \<lparr> u_total = 30, u_prompt = 20, u_completion = 10 \<rparr>)
   \<and> usage_le (usageTracker (initialState solo_workflow solo_messages)) (usageTracker solo_final)
   \<and> usageTracker (fst (handleEvent solo_runtime solo_workflow (mapConfig solo_workflow [])
                           solo_final (hd solo_events)))
       = \<lparr> u_total = 60, u_prompt = 40, u_completion = 20 \<rparr>
   \<and> usageTracker (fst (processEvents reentry_runtime pingpong_workflow
                           (mapConfig pingpong_workflow [])
                           (initialState pingpong_workflow pingpong_messages)
                           reentry_stream_first))
       = \<lparr> u_total = 0, u_prompt = 0, u_completion = 0 \<rparr>"
proof -
  have nonneg: "\<forall>i a inputs. \<forall>x \<in> set (fst (provider solo_runtime i a inputs)). nonnegative_counts x"
    by (simp add: solo_runtime_def solo_events_def nonnegative_counts_def usage_le_def)
  have path: "\<not> (length (ensureSystemMessage solo_messages) = 1
            \<and> role_of (hd (ensureSystemMessage solo_messages)) = system)"
    by (simp add: solo_repaired) (simp add: solo_messages_def)
  have first: "hd solo_events = raw_model_stream_event
        (response_done [] \<lparr> totalTokens = 30, inputTokens = 20, outputTokens = 10 \<rparr>)"
    by (simp add: solo_events_def)
  have used: "usageTracker solo_final = \<lparr> u_total = 30, u_prompt = 20, u_completion = 10 \<rparr>"
    by (simp add: solo_final_def)
  note facts = usage_accounting [where rt = solo_runtime and workflow = solo_workflow
      and cfg = "mapConfig solo_workflow []" and iter = 0 and e = "hd solo_events"
      and projectTools = "[]" and messages = solo_messages
      and out = "[MessageEvent (AssistantMessage ''Hello!'' (Some ''main'') External),
              UsageEvent \<lparr> u_total = 30, u_prompt = 20, u_completion = 10 \<rparr>]"]
  have step: "usageTracker (fst (handleEvent solo_runtime solo_workflow (mapConfig solo_workflow [])
                           solo_final (hd solo_events)))
       = usage_plus (usageTracker solo_final) (usage_delta (hd solo_events))"
    by (rule facts [where st = solo_final, THEN conjunct1])
  with first used have doubled: "usageTracker (fst (handleEvent solo_runtime solo_workflow
                           (mapConfig solo_workflow []) solo_final (hd solo_events)))
       = \<lparr> u_total = 60, u_prompt = 40, u_completion = 20 \<rparr>"
    by (simp add: usage_plus_def)
  have "usage_le (usageTracker (initialState solo_workflow solo_messages)) (usageTracker solo_final)"
    by (rule mp [OF facts [where st = "initialState solo_workflow solo_messages"
          and reached = solo_final and r = None,
          THEN conjunct2, THEN conjunct2, THEN conjunct2, THEN conjunct2, THEN conjunct2,
          THEN conjunct1]])
       (intro conjI nonneg solo_loop)
  moreover
  have "\<exists>n final.
           passes solo_runtime solo_workflow (mapConfig solo_workflow []) n 0
             (initialState solo_workflow (ensureSystemMessage solo_messages)) = Break final
           \<and> [MessageEvent (AssistantMessage ''Hello!'' (Some ''main'') External),
               UsageEvent \<lparr> u_total = 30, u_prompt = 20, u_completion = 10 \<rparr>]
             = emitted final
                 @ [UsageEvent
                      (usage_sum
                         (loop_events solo_runtime solo_workflow (mapConfig solo_workflow []) n 0
                            (initialState solo_workflow (ensureSystemMessage solo_messages))))]"
    by (rule mp [OF facts [THEN conjunct2, THEN conjunct2, THEN conjunct2, THEN conjunct2,
          THEN conjunct2, THEN conjunct2]])
       (intro conjI path solo_response)
  then have "\<exists>n. usage_sum (loop_events solo_runtime solo_workflow (mapConfig solo_workflow []) n 0
                       (initialState solo_workflow solo_messages))
            = \<lparr> u_total = 30, u_prompt = 20, u_completion = 10 \<rparr>"
    by (simp add: solo_repaired) (metis)
  moreover
  have "usageTracker (fst (processEvents reentry_runtime pingpong_workflow
                           (mapConfig pingpong_workflow [])
                           (initialState pingpong_workflow pingpong_messages)
                           reentry_stream_first))
       = usage_plus (usageTracker (initialState pingpong_workflow pingpong_messages))
           (usage_sum (read_events (mapConfig pingpong_workflow [])
              (agentName (initialState pingpong_workflow pingpong_messages)) reentry_stream_first))"
    by (rule usage_accounting [THEN conjunct2, THEN conjunct2, THEN conjunct1])
  moreover have "read_events (mapConfig pingpong_workflow []) ''A'' reentry_stream_first
          = [run_item_stream_event ''handoff_occurred'' (handoff_output_item ''B''),
             run_item_stream_event ''message_output_created''
               (message_output_item ''message'' ''completed'' [output_text ''done''])]"
    by (simp add: reentry_stream_first_def reenters_def agent_after_def visibility_def pingpong_cfg)
  moreover have "usageTracker (initialState pingpong_workflow pingpong_messages)
      = \<lparr> u_total = 0, u_prompt = 0, u_completion = 0 \<rparr>"
    by (simp add: initialState_def UsageTracker_new_def split: prod.split)
  ultimately show ?thesis
    using solo_response doubled
    by (simp add: pingpong_initial usage_sum_def usage_plus_def)
qed

end
